theory Spec2Isabelle
  imports Main
begin

section \<open>The timepoint view model of \<open>ohif-measurements\<close>\<close>

text \<open>
  This theory embeds the class \<open>TimepointApi\<close> of
  \<^verbatim>\<open>Packages/ohif-measurements/both/configuration/timepoints.js\<close>: an in-memory
  Minimongo collection of timepoint documents, the derived views over it
  (\<open>all\<close>, \<open>current\<close>, \<open>prior\<close>, \<open>currentAndPrior\<close>, \<open>key\<close>, \<open>name\<close>, \<open>title\<close>) and
  the operations that exchange data through externally supplied functions.
\<close>

subsection \<open>Documents\<close>

text \<open>
  Modelled from the spec: the schema attached to the collection
  (\<^verbatim>\<open>meteor/ohif:measurements/both/schema/timepoints\<close>) is not among the sources, so
  the fields of a timepoint document are those of section 3 of the specification.
  \<open>doc_id\<close> is the field \<^verbatim>\<open>_id\<close> of the JavaScript object: \<open>None\<close> when the object
  has no such property. Identifiers are opaque and are numbered here. \<open>latestDate\<close> is
  the time value of the JavaScript \<^verbatim>\<open>Date\<close>.
\<close>

record timepoint =
  doc_id :: "nat option"
  timepointId :: string
  patientId :: string
  timepointType :: string
  latestDate :: int
  studyInstanceUids :: "string list"
  locked :: bool

subsection \<open>The Minimongo collection\<close>

text \<open>
  \<^verbatim>\<open>new Mongo.Collection(null)\<close> is a local collection. Its documents are kept in
  insertion order, which is the order of a cursor without a sort specifier.
  \<open>next_id\<close> stands for the generator of random identifiers: the n-th identifier it
  hands out is \<open>n\<close>, so it never hands out the same identifier twice.
\<close>

record collection =
  docs :: "timepoint list"
  next_id :: nat

datatype error = TypeError | MinimongoError

definition empty_collection :: collection where
  "empty_collection = \<lparr>docs = [], next_id = 0\<rparr>"

text \<open>
  \<^verbatim>\<open>collection.insert(doc)\<close>: a document without \<^verbatim>\<open>_id\<close> gets a generated one; a
  document whose \<^verbatim>\<open>_id\<close> is already in the collection is refused with
  \<^verbatim>\<open>MinimongoError("Duplicate _id")\<close>.
\<close>

definition insert_doc :: "collection \<Rightarrow> timepoint \<Rightarrow> error + collection" where
  "insert_doc c t =
     (let generated = (doc_id t = None);
          i = (case doc_id t of None \<Rightarrow> next_id c | Some j \<Rightarrow> j);
          n = (if generated then Suc (next_id c) else next_id c)
      in if Some i \<in> set (map doc_id (docs c)) then Inl MinimongoError
         else Inr \<lparr>docs = docs c @ [t\<lparr>doc_id := Some i\<rparr>], next_id = n\<rparr>)"

text \<open>
  A cursor with \<^verbatim>\<open>sort: {latestDate: -1}\<close> or \<^verbatim>\<open>sort: {latestDate: 1}\<close>. The sort is
  the one of \<^verbatim>\<open>Array.prototype.sort\<close>, taken to be stable: documents with equal dates
  keep their insertion order.
\<close>

definition sort_desc :: "timepoint list \<Rightarrow> timepoint list" where
  "sort_desc ts = sort_key (\<lambda>t. - latestDate t) ts"

definition sort_asc :: "timepoint list \<Rightarrow> timepoint list" where
  "sort_asc ts = sort_key latestDate ts"

text \<open>\<^verbatim>\<open>findOne\<close>: the first document of the cursor, \<^verbatim>\<open>undefined\<close> when there is none.\<close>

definition findOne :: "timepoint list \<Rightarrow> timepoint option" where
  "findOne ts = (case ts of [] \<Rightarrow> None | t # _ \<Rightarrow> Some t)"

text \<open>\<^verbatim>\<open>collection.remove(selector)\<close> removes every matching document.\<close>

definition remove_docs :: "(timepoint \<Rightarrow> bool) \<Rightarrow> collection \<Rightarrow> collection" where
  "remove_docs sel c = c\<lparr>docs := filter (\<lambda>t. \<not> sel t) (docs c)\<rparr>"

text \<open>
  \<^verbatim>\<open>collection.update(selector, modifier)\<close> without \<^verbatim>\<open>multi\<close> changes the first
  matching document only. A modifier is a \<^verbatim>\<open>$set\<close> of fields; \<^verbatim>\<open>_id\<close> cannot be set.
\<close>

datatype field_set =
    Set_timepointId string
  | Set_patientId string
  | Set_timepointType string
  | Set_latestDate int
  | Set_studyInstanceUids "string list"
  | Set_locked bool

type_synonym modifier = "field_set list"

fun set_field :: "field_set \<Rightarrow> timepoint \<Rightarrow> timepoint" where
  "set_field (Set_timepointId v) t = t\<lparr>timepointId := v\<rparr>"
| "set_field (Set_patientId v) t = t\<lparr>patientId := v\<rparr>"
| "set_field (Set_timepointType v) t = t\<lparr>timepointType := v\<rparr>"
| "set_field (Set_latestDate v) t = t\<lparr>latestDate := v\<rparr>"
| "set_field (Set_studyInstanceUids v) t = t\<lparr>studyInstanceUids := v\<rparr>"
| "set_field (Set_locked v) t = t\<lparr>locked := v\<rparr>"

definition apply_modifier :: "modifier \<Rightarrow> timepoint \<Rightarrow> timepoint" where
  "apply_modifier m t = fold set_field m t"

fun update_first :: "(timepoint \<Rightarrow> bool) \<Rightarrow> modifier \<Rightarrow> timepoint list \<Rightarrow> timepoint list" where
  "update_first sel m [] = []"
| "update_first sel m (t # ts) =
     (if sel t then apply_modifier m t # ts else t # update_first sel m ts)"

definition update_docs :: "(timepoint \<Rightarrow> bool) \<Rightarrow> modifier \<Rightarrow> collection \<Rightarrow> collection" where
  "update_docs sel m c = c\<lparr>docs := update_first sel m (docs c)\<rparr>"

text \<open>
  The representation invariant of a collection: every stored document has an
  identifier, no two documents share one, and the generator has not yet handed out
  an identifier that it will hand out later.
\<close>

definition has_id_below :: "nat \<Rightarrow> timepoint \<Rightarrow> bool" where
  "has_id_below n t = (case doc_id t of None \<Rightarrow> False | Some i \<Rightarrow> i < n)"

definition wf_collection :: "collection \<Rightarrow> bool" where
  "wf_collection c \<longleftrightarrow>
     distinct (map doc_id (docs c)) \<and> list_all (has_id_below (next_id c)) (docs c)"

subsection \<open>The store and its configuration\<close>

text \<open>
  An externally supplied function returns a promise; what matters here is how that
  promise settles. A promise that is rejected (or never settles) never runs the
  reaction registered with \<^verbatim>\<open>then\<close>.
\<close>

datatype 'a promise = Fulfilled 'a | Rejected

text \<open>
  \<^verbatim>\<open>configuration.dataExchange\<close>: each function is optional (\<open>None\<close> when
  \<^verbatim>\<open>_.isFunction\<close> is false for the property). The module starts with
  \<^verbatim>\<open>configuration = {}\<close>, where \<^verbatim>\<open>dataExchange\<close> itself is undefined.
\<close>

record data_exchange =
  retrieve :: "(string option \<Rightarrow> timepoint list promise) option"
  store :: "(timepoint list \<Rightarrow> unit promise) option"
  update :: "(string \<Rightarrow> modifier \<Rightarrow> unit promise) option"
  remove :: "(string \<Rightarrow> unit promise) option"
  disassociate :: "(string list \<Rightarrow> string \<Rightarrow> unit promise) option"

record configuration =
  dataExchange :: "data_exchange option"

record TimepointApi =
  currentTimepointId :: "string option"
  timepoints :: collection

text \<open>What \<^verbatim>\<open>OHIF.log\<close> receives.\<close>

datatype log_entry =
    Info string
  | Info_data "timepoint list"
  | Info_json_data "timepoint list"
  | Info_json_selector string
  | Info_json_modifier modifier
  | Warn string

text \<open>
  The constructor keeps \<open>currentTimepointId\<close> only when it is truthy: neither
  \<^verbatim>\<open>undefined\<close> nor the empty string. Its second argument is not used.
\<close>

definition constructor :: "string option \<Rightarrow> TimepointApi" where
  "constructor currentTimepointId' =
     \<lparr>currentTimepointId =
        (case currentTimepointId' of None \<Rightarrow> None
         | Some i \<Rightarrow> if i \<noteq> [] then Some i else None),
      timepoints = empty_collection\<rparr>"

subsection \<open>Derived views\<close>

definition all :: "TimepointApi \<Rightarrow> timepoint list" where
  "all api = sort_desc (docs (timepoints api))"

text \<open>
  The selector \<^verbatim>\<open>{timepointId: this.currentTimepointId}\<close>. When the property is
  unset the selector asks for documents without a \<open>timepointId\<close>, and every document
  has one.
\<close>

definition current :: "TimepointApi \<Rightarrow> timepoint option" where
  "current api =
     findOne (filter (\<lambda>t. currentTimepointId api = Some (timepointId t))
                     (docs (timepoints api)))"

definition prior :: "TimepointApi \<Rightarrow> timepoint option" where
  "prior api =
     (case current api of
        None \<Rightarrow> None
      | Some c \<Rightarrow>
          findOne (sort_desc (filter (\<lambda>t. latestDate t < latestDate c)
                                     (docs (timepoints api)))))"

definition currentAndPrior :: "TimepointApi \<Rightarrow> timepoint list" where
  "currentAndPrior api =
     (let current' = current api;
          timepoints1 = (case current' of None \<Rightarrow> [] | Some c \<Rightarrow> [c]);
          prior' = prior api
      in case current' of
           None \<Rightarrow> timepoints1
         | Some c \<Rightarrow>
             (case prior' of
                None \<Rightarrow> timepoints1
              | Some p \<Rightarrow> if doc_id p \<noteq> doc_id c then timepoints1 @ [p] else timepoints1))"

definition baseline :: "TimepointApi \<Rightarrow> timepoint option" where
  "baseline api =
     findOne (filter (\<lambda>t. timepointType t = ''baseline'') (docs (timepoints api)))"

text \<open>
  \<open>key\<close> and \<open>study\<close> build a second local collection, insert the chosen documents
  (with the identifiers they already have) and fetch it back.
\<close>

fun key_each :: "timepoint list \<Rightarrow> nat \<Rightarrow> int \<Rightarrow> collection \<Rightarrow> error + collection" where
  "key_each [] index len result = Inr result"
| "key_each (t # ts) index len result =
     (if index < 2 \<or> int index = len - 1
      then (case insert_doc result t of
              Inl e \<Rightarrow> Inl e
            | Inr result' \<Rightarrow> key_each ts (Suc index) len result')
      else key_each ts (Suc index) len result)"

definition key :: "TimepointApi \<Rightarrow> error + timepoint list" where
  "key api =
     (let all' = all api
      in case key_each all' 0 (int (length all')) empty_collection of
           Inl e \<Rightarrow> Inl e
         | Inr result \<Rightarrow> Inr (docs result))"

fun study_each :: "timepoint list \<Rightarrow> string \<Rightarrow> collection \<Rightarrow> error + collection" where
  "study_each [] uid result = Inr result"
| "study_each (t # ts) uid result =
     (if uid \<in> set (studyInstanceUids t)
      then (case insert_doc result t of
              Inl e \<Rightarrow> Inl e
            | Inr result' \<Rightarrow> study_each ts uid result')
      else study_each ts uid result)"

definition study :: "TimepointApi \<Rightarrow> string \<Rightarrow> error + timepoint list" where
  "study api studyInstanceUid =
     (case study_each (all api) studyInstanceUid empty_collection of
        Inl e \<Rightarrow> Inl e
      | Inr result \<Rightarrow> Inr (docs result))"

subsection \<open>Names and titles\<close>

text \<open>\<^verbatim>\<open>Array.prototype.indexOf\<close>: the first index of the element, \<open>-1\<close> when absent.\<close>

fun indexOf :: "'a list \<Rightarrow> 'a \<Rightarrow> int" where
  "indexOf [] x = - 1"
| "indexOf (y # ys) x =
     (if y = x then 0
      else (let r = indexOf ys x in if r = - 1 then - 1 else r + 1))"

text \<open>The decimal numeral that string concatenation produces for a non-negative integer.\<close>

definition digit_char :: "nat \<Rightarrow> char" where
  "digit_char d = ''0123456789'' ! d"

fun decimal :: "nat \<Rightarrow> string" where
  "decimal n =
     (if n < 10 then [digit_char n] else decimal (n div 10) @ [digit_char (n mod 10)])"

declare decimal.simps [simp del]

definition name :: "TimepointApi \<Rightarrow> timepoint \<Rightarrow> string option \<times> log_entry list" where
  "name api timepoint' =
     (if timepointType timepoint' = ''baseline'' then (Some ''Baseline'', [])
      else
        (let followupTimepoints =
               sort_asc (filter (\<lambda>t. patientId t = patientId timepoint' \<and>
                                      timepointType t = timepointType timepoint')
                                (docs (timepoints api)));
             followupTimepointIds = map timepointId followupTimepoints;
             index = indexOf followupTimepointIds (timepointId timepoint') + 1
         in if index = 0
            then (None, [Warn ''Current follow-up was not in the list of relevant follow-ups?''])
            else (Some (''Follow-up '' @ decimal (nat index)), [])))"

text \<open>
  The loop of \<open>title\<close>: \<open>index\<close> starts at \<open>-1\<close> and \<open>currentIndex\<close> at \<^verbatim>\<open>null\<close>
  (\<open>None\<close>); the result is the value of \<open>index\<close> when the loop is left.
\<close>

fun title_loop :: "string option \<Rightarrow> string \<Rightarrow> timepoint list \<Rightarrow> int \<Rightarrow> int option \<Rightarrow> int" where
  "title_loop cur target [] index currentIndex = index"
| "title_loop cur target (currentTimepoint # rest) index currentIndex =
     (let currentIndex1 =
            (if cur = Some (timepointId currentTimepoint) then Some 0 else currentIndex);
          index1 = (case currentIndex1 of None \<Rightarrow> index | Some k \<Rightarrow> k);
          currentIndex2 = (case currentIndex1 of None \<Rightarrow> None | Some k \<Rightarrow> Some (k + 1))
      in if timepointId currentTimepoint = target then index1
         else title_loop cur target rest index1 currentIndex2)"

definition states :: "int \<Rightarrow> string" where
  "states index = (if index = 0 then ''(Current)'' else if index = 1 then ''(Prior)'' else [])"

definition title :: "TimepointApi \<Rightarrow> timepoint \<Rightarrow> string \<times> log_entry list" where
  "title api timepoint' =
     (let (timepointName, logs) = name api timepoint';
          index = title_loop (currentTimepointId api) (timepointId timepoint') (all api) (- 1) None;
          parenthesis = states index
      in ((case timepointName of None \<Rightarrow> ''undefined'' | Some n \<Rightarrow> n) @ '' '' @ parenthesis,
          logs))"

subsection \<open>Operations that exchange data\<close>

text \<open>
  Each operation is given with the state it leaves once the promise of the external
  function has settled and its reaction, if any, has run. \<open>Inl TypeError\<close> is the
  exception of reading a property of \<^verbatim>\<open>undefined\<close> or of calling it.
\<close>

datatype returned = Undefined | Promise_resolved | Promise_pending

fun insert_each :: "collection \<Rightarrow> timepoint list \<Rightarrow> collection \<times> error option" where
  "insert_each c [] = (c, None)"
| "insert_each c (t # ts) =
     (case insert_doc c (t\<lparr>doc_id := None\<rparr>) of
        Inl e \<Rightarrow> (c, Some e)
      | Inr c' \<Rightarrow> insert_each c' ts)"

definition retrieveTimepoints ::
  "configuration \<Rightarrow> TimepointApi \<Rightarrow> string option \<Rightarrow>
   error + (TimepointApi \<times> log_entry list \<times> returned)" where
  "retrieveTimepoints cfg api patientId' =
     (case dataExchange cfg of
        None \<Rightarrow> Inl TypeError
      | Some dx \<Rightarrow>
          (case retrieve dx of
             None \<Rightarrow> Inr (api, [], Undefined)
           | Some retrievalFn \<Rightarrow>
               (case retrievalFn patientId' of
                  Rejected \<Rightarrow> Inr (api, [], Promise_pending)
                | Fulfilled timepointData \<Rightarrow>
                    (let logs = [Info ''Timepoint data retrieval'', Info_data timepointData]
                     in case insert_each (timepoints api) timepointData of
                          (c, Some e) \<Rightarrow> Inr (api\<lparr>timepoints := c\<rparr>, logs, Promise_pending)
                        | (c, None) \<Rightarrow> Inr (api\<lparr>timepoints := c\<rparr>, logs, Promise_resolved)))))"

definition storeTimepoints ::
  "configuration \<Rightarrow> TimepointApi \<Rightarrow> error + (TimepointApi \<times> log_entry list)" where
  "storeTimepoints cfg api =
     (case dataExchange cfg of
        None \<Rightarrow> Inl TypeError
      | Some dx \<Rightarrow>
          (case store dx of
             None \<Rightarrow> Inr (api, [])
           | Some storeFn \<Rightarrow>
               (let timepointData = docs (timepoints api);
                    logs = [Info ''Preparing to store timepoints'', Info_json_data timepointData]
                in case storeFn timepointData of
                     Rejected \<Rightarrow> Inr (api, logs)
                   | Fulfilled _ \<Rightarrow> Inr (api, logs @ [Info ''Timepoint storage completed'']))))"

definition disassociateStudy ::
  "configuration \<Rightarrow> TimepointApi \<Rightarrow> string list \<Rightarrow> string \<Rightarrow>
   error + (TimepointApi \<times> log_entry list)" where
  "disassociateStudy cfg api timepointIds studyInstanceUid =
     (case dataExchange cfg of
        None \<Rightarrow> Inl TypeError
      | Some dx \<Rightarrow>
          (case disassociate dx of
             None \<Rightarrow> Inl TypeError
           | Some disassociateFn \<Rightarrow>
               (case disassociateFn timepointIds studyInstanceUid of
                  Rejected \<Rightarrow> Inr (api, [])
                | Fulfilled _ \<Rightarrow>
                    (let logs = [Info ''Disassociation completed''];
                         api1 = api\<lparr>timepoints := remove_docs (\<lambda>t. True) (timepoints api)\<rparr>
                     in case retrieveTimepoints cfg api1 None of
                          Inl e \<Rightarrow> Inr (api1, logs)
                        | Inr (api2, logs2, r) \<Rightarrow> Inr (api2, logs @ logs2)))))"

definition removeTimepoint ::
  "configuration \<Rightarrow> TimepointApi \<Rightarrow> string \<Rightarrow> error + (TimepointApi \<times> log_entry list)" where
  "removeTimepoint cfg api timepointId' =
     (case dataExchange cfg of
        None \<Rightarrow> Inl TypeError
      | Some dx \<Rightarrow>
          (case remove dx of
             None \<Rightarrow> Inr (api, [])
           | Some removeFn \<Rightarrow>
               (let logs = [Info ''Preparing to remove timepoint'', Info_json_selector timepointId']
                in case removeFn timepointId' of
                     Rejected \<Rightarrow> Inr (api, logs)
                   | Fulfilled _ \<Rightarrow>
                       Inr (api\<lparr>timepoints :=
                                  remove_docs (\<lambda>t. timepointId t = timepointId') (timepoints api)\<rparr>,
                            logs @ [Info ''Timepoint removal completed'']))))"

definition updateTimepoint ::
  "configuration \<Rightarrow> TimepointApi \<Rightarrow> string \<Rightarrow> modifier \<Rightarrow>
   error + (TimepointApi \<times> log_entry list)" where
  "updateTimepoint cfg api timepointId' query =
     (case dataExchange cfg of
        None \<Rightarrow> Inl TypeError
      | Some dx \<Rightarrow>
          (case update dx of
             None \<Rightarrow> Inr (api, [])
           | Some updateFn \<Rightarrow>
               (let logs = [Info ''Preparing to update timepoint'',
                            Info_json_selector timepointId', Info_json_modifier query]
                in case updateFn timepointId' query of
                     Rejected \<Rightarrow> Inr (api, logs)
                   | Fulfilled _ \<Rightarrow>
                       Inr (api\<lparr>timepoints :=
                                  update_docs (\<lambda>t. timepointId t = timepointId') query
                                              (timepoints api)\<rparr>,
                            logs @ [Info ''Timepoint updated completed'']))))"

text \<open>\<open>lock\<close> uses no external function: it updates the current document by its \<^verbatim>\<open>_id\<close>.\<close>

definition lock :: "TimepointApi \<Rightarrow> TimepointApi" where
  "lock api =
     (case current api of
        None \<Rightarrow> api
      | Some c \<Rightarrow>
          api\<lparr>timepoints :=
                update_docs (\<lambda>t. doc_id t = doc_id c) [Set_locked True] (timepoints api)\<rparr>)"


subsection \<open>Notions used to state the properties\<close>

text \<open>
  \<open>fresh_ids n ts\<close> gives the documents \<open>ts\<close> the identifiers \<open>n\<close>, \<open>n + 1\<close>, ... in
  place of whatever \<^verbatim>\<open>_id\<close> they had; \<open>strip_id\<close> forgets the \<^verbatim>\<open>_id\<close> of a document.
\<close>

fun fresh_ids :: "nat \<Rightarrow> timepoint list \<Rightarrow> timepoint list" where
  "fresh_ids n [] = []"
| "fresh_ids n (t # ts) = t\<lparr>doc_id := Some n\<rparr> # fresh_ids (Suc n) ts"

definition strip_id :: "timepoint \<Rightarrow> timepoint" where
  "strip_id t = t\<lparr>doc_id := None\<rparr>"

text \<open>
  The 1-based rank of \<open>x\<close> in \<open>xs\<close>: one more than the number of entries before its
  first occurrence, and nothing when \<open>x\<close> does not occur. \<open>ranked_ids api t\<close> lists the
  \<open>timepointId\<close>s of the stored records that have the patient and the type of \<open>t\<close>,
  by \<open>latestDate\<close> ascending.
\<close>

definition rank :: "'a \<Rightarrow> 'a list \<Rightarrow> nat option" where
  "rank x xs = (if x \<in> set xs then Some (Suc (length (takeWhile (\<lambda>y. y \<noteq> x) xs))) else None)"

definition ranked_ids :: "TimepointApi \<Rightarrow> timepoint \<Rightarrow> string list" where
  "ranked_ids api t =
     map timepointId
       (sort_key latestDate
          (filter (\<lambda>u. patientId u = patientId t \<and> timepointType u = timepointType t)
                  (docs (timepoints api))))"

text \<open>
  The walk of \<open>title\<close> in the words of the specification: \<open>all\<close> from the first record
  that matches \<open>currentTimepointId\<close> on; the relative offset of a record is its
  position in that walk (0 for the current record, 1 for the next one, and so on),
  and nothing for a record that the walk does not reach; the suffix is chosen by the
  offset.
\<close>

definition walk_from_current :: "TimepointApi \<Rightarrow> timepoint list" where
  "walk_from_current api =
     dropWhile (\<lambda>u. currentTimepointId api \<noteq> Some (timepointId u)) (all api)"

definition relative_offset :: "TimepointApi \<Rightarrow> timepoint \<Rightarrow> nat option" where
  "relative_offset api t =
     (let w = walk_from_current api
      in if t \<in> set w then Some (length (takeWhile (\<lambda>u. u \<noteq> t) w)) else None)"

definition suffix :: "nat option \<Rightarrow> string" where
  "suffix off =
     (case off of Some 0 \<Rightarrow> ''(Current)'' | Some (Suc 0) \<Rightarrow> ''(Prior)'' | _ \<Rightarrow> [])"

text \<open>The digit that a character of a decimal numeral stands for.\<close>

definition digit_value :: "char \<Rightarrow> nat" where
  "digit_value c = of_char c - 48"

text \<open>
  \<open>retype g api\<close> is the store \<open>api\<close> with the \<open>timepointType\<close> of every record
  replaced by what \<open>g\<close> says.
\<close>

definition retype :: "(timepoint \<Rightarrow> string) \<Rightarrow> TimepointApi \<Rightarrow> TimepointApi" where
  "retype g api =
     api\<lparr>timepoints :=
           (timepoints api)\<lparr>docs := map (\<lambda>t. t\<lparr>timepointType := g t\<rparr>)
                                        (docs (timepoints api))\<rparr>\<rparr>"

subsection \<open>Example stores\<close>

text \<open>
  A store of one baseline and three follow-ups of patient \<open>p\<close>, inserted in the order
  \<open>a\<close>, \<open>b\<close>, \<open>c\<close>, \<open>d\<close>, with \<open>b\<close> as the current timepoint.
\<close>

definition example_timepoint :: "nat \<Rightarrow> string \<Rightarrow> string \<Rightarrow> int \<Rightarrow> timepoint" where
  "example_timepoint i tid ty d =
     \<lparr>doc_id = Some i, timepointId = tid, patientId = ''p'', timepointType = ty,
      latestDate = d, studyInstanceUids = [], locked = False\<rparr>"

definition example_api :: TimepointApi where
  "example_api =
     \<lparr>currentTimepointId = Some ''b'',
      timepoints =
        \<lparr>docs = [example_timepoint 0 ''a'' ''baseline'' 1,
                 example_timepoint 1 ''b'' ''followup'' 3,
                 example_timepoint 2 ''c'' ''followup'' 2,
                 example_timepoint 3 ''d'' ''followup'' 5],
         next_id = 4\<rparr>\<rparr>"


text \<open>A configuration whose \<open>dataExchange\<close> object supplies no function at all.\<close>

definition no_functions :: data_exchange where
  "no_functions =
     \<lparr>retrieve = None, store = None, update = None, remove = None, disassociate = None\<rparr>"

text \<open>A configuration in which every function is supplied and every promise is fulfilled.\<close>

definition example_retrieve :: "string option \<Rightarrow> timepoint list promise" where
  "example_retrieve p = Fulfilled [example_timepoint 7 ''e'' ''followup'' 4]"

definition example_exchange :: data_exchange where
  "example_exchange =
     \<lparr>retrieve = Some example_retrieve,
      store = Some (\<lambda>ts. Fulfilled ()),
      update = Some (\<lambda>i q. Fulfilled ()),
      remove = Some (\<lambda>i. Fulfilled ()),
      disassociate = Some (\<lambda>ids u. Fulfilled ())\<rparr>"

text \<open>
  A configuration whose \<open>update\<close> function is supplied and rejects, and whose other
  functions are not supplied.
\<close>

definition example_rejecting :: data_exchange where
  "example_rejecting =
     \<lparr>retrieve = None,
      store = None,
      update = Some (\<lambda>i q. Rejected),
      remove = None,
      disassociate = None\<rparr>"

text \<open>
  A store whose baseline \<open>a\<close> is neither among the two most recent records nor the
  oldest one, and a store of two records.
\<close>

definition example_api2 :: TimepointApi where
  "example_api2 =
     \<lparr>currentTimepointId = Some ''d'',
      timepoints =
        \<lparr>docs = [example_timepoint 0 ''a'' ''baseline'' 2,
                 example_timepoint 1 ''b'' ''followup'' 3,
                 example_timepoint 2 ''c'' ''followup'' 1,
                 example_timepoint 3 ''d'' ''followup'' 5],
         next_id = 4\<rparr>\<rparr>"

definition example_small :: TimepointApi where
  "example_small =
     \<lparr>currentTimepointId = Some ''a'',
      timepoints =
        \<lparr>docs = [example_timepoint 0 ''a'' ''baseline'' 1,
                 example_timepoint 1 ''b'' ''followup'' 3],
         next_id = 2\<rparr>\<rparr>"

text \<open>A store in which two records carry the \<open>timepointId\<close> \<open>b\<close>.\<close>

definition example_dup :: TimepointApi where
  "example_dup =
     \<lparr>currentTimepointId = Some ''a'',
      timepoints =
        \<lparr>docs = [example_timepoint 0 ''a'' ''followup'' 3,
                 example_timepoint 1 ''b'' ''followup'' 2,
                 example_timepoint 2 ''b'' ''followup'' 1],
         next_id = 3\<rparr>\<rparr>"

section \<open>Properties\<close>

subsection \<open>Cursors\<close>

lemma findOne_None_iff: "findOne ts = None \<longleftrightarrow> ts = []"
  by (simp add: findOne_def split: list.splits)

lemma findOne_Some_iff: "findOne ts = Some t \<longleftrightarrow> (\<exists>us. ts = t # us)"
  by (auto simp: findOne_def split: list.splits)

lemma current_None_iff:
  "current api = None \<longleftrightarrow>
     (\<forall>t\<in>set (docs (timepoints api)). currentTimepointId api \<noteq> Some (timepointId t))"
  by (simp add: current_def findOne_None_iff filter_empty_conv)

lemma current_Some_D:
  assumes "current api = Some c"
  shows "c \<in> set (docs (timepoints api))" and "currentTimepointId api = Some (timepointId c)"
proof -
  from assms obtain us where
    "filter (\<lambda>t. currentTimepointId api = Some (timepointId t)) (docs (timepoints api)) = c # us"
    by (auto simp: current_def findOne_Some_iff)
  then have "c \<in> set (filter (\<lambda>t. currentTimepointId api = Some (timepointId t)) (docs (timepoints api)))"
    by simp
  then show "c \<in> set (docs (timepoints api))" and "currentTimepointId api = Some (timepointId c)"
    by simp_all
qed

lemma sort_desc_Cons_D:
  assumes "sort_desc ts = p # ps"
  shows "p \<in> set ts" and "\<forall>t\<in>set ts. latestDate t \<le> latestDate p"
proof -
  have "set (sort_desc ts) = set ts"
    by (simp add: sort_desc_def)
  with assms have s: "set ts = insert p (set ps)"
    by simp
  then show "p \<in> set ts" by simp
  have "sorted (map (\<lambda>t. - latestDate t) (sort_desc ts))"
    unfolding sort_desc_def by (rule sorted_sort_key)
  with assms have "\<forall>t\<in>set ps. - latestDate p \<le> - latestDate t"
    by simp
  with s show "\<forall>t\<in>set ts. latestDate t \<le> latestDate p"
    by auto
qed


subsection \<open>The current and the prior timepoint\<close>

text \<open>
  Claim C4. Without a record that matches \<open>currentTimepointId\<close>, \<open>prior\<close> returns
  nothing. With a current record \<open>c\<close>, \<open>prior\<close> returns nothing exactly when no record
  is dated strictly before \<open>c\<close>; otherwise it returns a stored record dated strictly
  before \<open>c\<close> whose date is the greatest among the records dated strictly before \<open>c\<close>.
  So \<open>prior\<close> never returns a record dated at or after the current one.
\<close>

theorem prior_greatest_before_current:
  "((\<forall>t\<in>set (docs (timepoints api)). currentTimepointId api \<noteq> Some (timepointId t)) \<longrightarrow>
      prior api = None) \<and>
   (\<forall>c. current api = Some c \<longrightarrow>
      (case prior api of
         None \<Rightarrow> \<forall>t\<in>set (docs (timepoints api)). \<not> latestDate t < latestDate c
       | Some p \<Rightarrow>
           p \<in> set (docs (timepoints api)) \<and> latestDate p < latestDate c \<and>
           (\<forall>t\<in>set (docs (timepoints api)).
              latestDate t < latestDate c \<longrightarrow> latestDate t \<le> latestDate p)))"
proof (intro conjI allI impI)
  assume "\<forall>t\<in>set (docs (timepoints api)). currentTimepointId api \<noteq> Some (timepointId t)"
  then have "current api = None"
    by (simp add: current_None_iff)
  then show "prior api = None" by (simp add: prior_def)
next
  fix c
  assume c: "current api = Some c"
  let ?before = "filter (\<lambda>t. latestDate t < latestDate c) (docs (timepoints api))"
  have p: "prior api = findOne (sort_desc ?before)"
    using c by (simp add: prior_def)
  show "case prior api of
          None \<Rightarrow> \<forall>t\<in>set (docs (timepoints api)). \<not> latestDate t < latestDate c
        | Some p \<Rightarrow>
            p \<in> set (docs (timepoints api)) \<and> latestDate p < latestDate c \<and>
            (\<forall>t\<in>set (docs (timepoints api)).
               latestDate t < latestDate c \<longrightarrow> latestDate t \<le> latestDate p)"
  proof (cases "prior api")
    case None
    with p have "findOne (sort_desc ?before) = None"
      by simp
    then have "sort_desc ?before = []"
      by (simp add: findOne_None_iff)
    then have "set ?before = {}"
      by (metis set_sort sort_desc_def set_empty)
    then have "\<forall>t\<in>set (docs (timepoints api)). \<not> latestDate t < latestDate c"
      by (auto simp: filter_empty_conv)
    with None show ?thesis by simp
  next
    case (Some q)
    with p have "findOne (sort_desc ?before) = Some q"
      by simp
    then obtain qs where "sort_desc ?before = q # qs"
      by (auto simp: findOne_Some_iff)
    from sort_desc_Cons_D [OF this] Some show ?thesis
      by auto
  qed
qed

theorem prior_greatest_before_current_witness:
  "current example_api = Some (example_timepoint 1 ''b'' ''followup'' 3) \<and>
   prior example_api = Some (example_timepoint 2 ''c'' ''followup'' 2) \<and>
   example_timepoint 2 ''c'' ''followup'' 2 \<in> set (docs (timepoints example_api)) \<and>
   latestDate (example_timepoint 2 ''c'' ''followup'' 2)
     < latestDate (example_timepoint 1 ''b'' ''followup'' 3)"
  using prior_greatest_before_current [of example_api]
  by (simp add: example_api_def example_timepoint_def current_def prior_def findOne_def sort_desc_def)


text \<open>
  Claim C10. When \<open>currentTimepointId\<close> is unset, or no stored record carries it,
  the reads return without error: \<open>current\<close> and \<open>prior\<close> return nothing, also on a
  store that is not empty, and \<open>currentAndPrior\<close> returns the empty sequence. The
  constructor leaves \<open>currentTimepointId\<close> unset when it is given \<^verbatim>\<open>undefined\<close> or
  the empty string.
\<close>

theorem reads_without_current:
  assumes "currentTimepointId api = None \<or>
           (\<forall>t\<in>set (docs (timepoints api)). currentTimepointId api \<noteq> Some (timepointId t))"
  shows "current api = None \<and> prior api = None \<and> currentAndPrior api = [] \<and>
         ((given = None \<or> given = Some []) \<longrightarrow> currentTimepointId (constructor given) = None)"
proof -
  from assms have "current api = None"
    by (auto simp: current_None_iff)
  then show ?thesis
    by (auto simp: prior_def currentAndPrior_def constructor_def)
qed

theorem reads_without_current_witness:
  "currentTimepointId (example_api\<lparr>currentTimepointId := None\<rparr>) = None \<and>
   docs (timepoints (example_api\<lparr>currentTimepointId := None\<rparr>)) \<noteq> [] \<and>
   current (example_api\<lparr>currentTimepointId := None\<rparr>) = None \<and>
   prior (example_api\<lparr>currentTimepointId := None\<rparr>) = None \<and>
   currentAndPrior (example_api\<lparr>currentTimepointId := None\<rparr>) = [] \<and>
   currentTimepointId (constructor (Some [])) = None"
  using reads_without_current [of "example_api\<lparr>currentTimepointId := None\<rparr>" "Some []"]
  by (simp add: example_api_def)

subsection \<open>Exchanging data\<close>

text \<open>
  The four operations that test \<^verbatim>\<open>_.isFunction\<close> return at once when their
  function is not supplied: the store is unchanged and nothing is logged.
\<close>

lemma guarded_operations_absent:
  assumes "dataExchange cfg = Some dx"
  shows "retrieve dx = None \<Longrightarrow> retrieveTimepoints cfg api p = Inr (api, [], Undefined)"
    and "store dx = None \<Longrightarrow> storeTimepoints cfg api = Inr (api, [])"
    and "update dx = None \<Longrightarrow> updateTimepoint cfg api i q = Inr (api, [])"
    and "remove dx = None \<Longrightarrow> removeTimepoint cfg api i = Inr (api, [])"
  using assms
  by (simp_all add: retrieveTimepoints_def storeTimepoints_def updateTimepoint_def
      removeTimepoint_def)

text \<open>
  Claim C2. \<open>disassociateStudy\<close> has no such test: with a \<open>dataExchange\<close> object that
  supplies no function it calls \<^verbatim>\<open>undefined\<close> and throws, where the claim asks for
  a silent return.
\<close>

theorem disassociateStudy_without_function:
  "disassociateStudy \<lparr>dataExchange = Some no_functions\<rparr> api timepointIds studyInstanceUid
     = Inl TypeError"
  by (simp add: disassociateStudy_def no_functions_def)

text \<open>
  Claim C3, as stated, fails for \<open>lock\<close>: it involves no external function, and it
  changes the stored current record whatever the configuration is.
\<close>

theorem lock_without_external_function:
  "map locked (docs (timepoints example_api)) = [False, False, False, False] \<and>
   map locked (docs (timepoints (lock example_api))) = [False, True, False, False]"
  by (simp add: lock_def current_def findOne_def update_docs_def apply_modifier_def
      example_api_def example_timepoint_def)

lemma update_first_by_id:
  assumes "distinct (map doc_id ts)"
  shows "update_first (\<lambda>t. doc_id t = i) m ts =
         map (\<lambda>t. if doc_id t = i then apply_modifier m t else t) ts"
  using assms
proof (induction ts)
  case Nil
  then show ?case by simp
next
  case (Cons t ts)
  show ?case
  proof (cases "doc_id t = i")
    case True
    have "\<forall>u\<in>set ts. doc_id u \<noteq> i"
    proof
      fix u
      assume "u \<in> set ts"
      then have "doc_id u \<in> set (map doc_id ts)"
        by simp
      moreover from Cons.prems have "doc_id t \<notin> set (map doc_id ts)"
        by simp
      ultimately show "doc_id u \<noteq> i"
        using True by metis
    qed
    then have "map (\<lambda>t. if doc_id t = i then apply_modifier m t else t) ts = ts"
      by (induction ts) auto
    with True show ?thesis by simp
  next
    case False
    with Cons show ?thesis by simp
  qed
qed

lemma lock_docs:
  assumes c: "current api = Some c" and w: "wf_collection (timepoints api)"
  shows "docs (timepoints (lock api)) =
           map (\<lambda>t. if t = c then t\<lparr>locked := True\<rparr> else t) (docs (timepoints api))"
proof -
  from w have d: "distinct (map doc_id (docs (timepoints api)))"
    by (simp add: wf_collection_def)
  from c have m: "c \<in> set (docs (timepoints api))"
    by (simp add: current_Some_D)
  have "\<forall>t\<in>set (docs (timepoints api)). (doc_id t = doc_id c) = (t = c)"
    using d m by (auto simp: distinct_map inj_on_def)
  then have "map (\<lambda>t. if doc_id t = doc_id c then apply_modifier [Set_locked True] t else t)
                 (docs (timepoints api)) =
             map (\<lambda>t. if t = c then t\<lparr>locked := True\<rparr> else t) (docs (timepoints api))"
    by (auto simp: apply_modifier_def)
  with c d show ?thesis
    by (simp add: lock_def update_docs_def update_first_by_id)
qed

lemma lock_unchanged_iff:
  assumes c: "current api = Some c" and w: "wf_collection (timepoints api)"
  shows "(lock api = api) = locked c"
proof
  assume "lock api = api"
  then have "docs (timepoints (lock api)) = docs (timepoints api)"
    by simp
  with lock_docs [OF c w]
  have e: "map (\<lambda>t. if t = c then t\<lparr>locked := True\<rparr> else t) (docs (timepoints api)) =
           map (\<lambda>t. t) (docs (timepoints api))"
    by simp
  from c have "c \<in> set (docs (timepoints api))"
    by (simp add: current_Some_D)
  moreover from e
  have "\<forall>t\<in>set (docs (timepoints api)). (if t = c then t\<lparr>locked := True\<rparr> else t) = t"
    by (simp only: map_eq_conv)
  ultimately have "c\<lparr>locked := True\<rparr> = c"
    by (metis (full_types))
  then have "locked (c\<lparr>locked := True\<rparr>) = locked c"
    by simp
  then show "locked c"
    by simp
next
  assume l: "locked c"
  then have "c\<lparr>locked := True\<rparr> = c"
    by simp
  then have "map (\<lambda>t. if t = c then t\<lparr>locked := True\<rparr> else t) (docs (timepoints api)) =
             docs (timepoints api)"
    by (simp add: map_idI)
  with lock_docs [OF c w] have "docs (timepoints (lock api)) = docs (timepoints api)"
    by simp
  moreover have "next_id (timepoints (lock api)) = next_id (timepoints api)"
    using c by (simp add: lock_def update_docs_def)
  moreover have "currentTimepointId (lock api) = currentTimepointId api"
    using c by (simp add: lock_def)
  ultimately show "lock api = api"
    by simp
qed

text \<open>
  Claim C3, amended. With a \<open>dataExchange\<close> object in the configuration,
  \<open>updateTimepoint\<close> and \<open>removeTimepoint\<close> return at once, with the store unchanged
  and nothing logged, when their external function (\<open>update\<close>, \<open>remove\<close>) is not
  supplied. When it is supplied they call it, and the local mutation is applied
  exactly when the promise it returns is fulfilled: then the store is the old one with
  the collection's update of the first record that carries the given \<open>timepointId\<close>,
  respectively with every record that carries it removed; when the promise is
  rejected the store is unchanged. So whenever one of them leaves the store changed,
  its function was supplied and its promise fulfilled. (Without a \<open>dataExchange\<close>
  object both throw.) \<open>lock\<close> uses no external function: without a current record
  it leaves the store as it is, and with a current record it sets \<open>locked\<close> on that
  record and on no other, at once; the store is then unchanged exactly when the
  current record was locked already.
\<close>

theorem mutations_after_round_trip:
  "(dataExchange cfg = None \<longrightarrow>
      updateTimepoint cfg api i q = Inl TypeError \<and> removeTimepoint cfg api i = Inl TypeError) \<and>
   (\<forall>dx. dataExchange cfg = Some dx \<longrightarrow>
      (update dx = None \<longrightarrow> updateTimepoint cfg api i q = Inr (api, [])) \<and>
      (\<forall>f. update dx = Some f \<and> f i q = Rejected \<longrightarrow>
         updateTimepoint cfg api i q =
           Inr (api, [Info ''Preparing to update timepoint'', Info_json_selector i,
                      Info_json_modifier q])) \<and>
      (\<forall>f. update dx = Some f \<and> f i q = Fulfilled () \<longrightarrow>
         updateTimepoint cfg api i q =
           Inr (api\<lparr>timepoints :=
                     update_docs (\<lambda>t. timepointId t = i) q (timepoints api)\<rparr>,
                [Info ''Preparing to update timepoint'', Info_json_selector i,
                 Info_json_modifier q, Info ''Timepoint updated completed''])) \<and>
      (\<forall>api' l. updateTimepoint cfg api i q = Inr (api', l) \<and> api' \<noteq> api \<longrightarrow>
         (\<exists>f. update dx = Some f \<and> f i q = Fulfilled () \<and>
            api' = api\<lparr>timepoints :=
                        update_docs (\<lambda>t. timepointId t = i) q (timepoints api)\<rparr>)) \<and>
      (remove dx = None \<longrightarrow> removeTimepoint cfg api i = Inr (api, [])) \<and>
      (\<forall>f. remove dx = Some f \<and> f i = Rejected \<longrightarrow>
         removeTimepoint cfg api i =
           Inr (api, [Info ''Preparing to remove timepoint'', Info_json_selector i])) \<and>
      (\<forall>f. remove dx = Some f \<and> f i = Fulfilled () \<longrightarrow>
         removeTimepoint cfg api i =
           Inr (api\<lparr>timepoints :=
                     remove_docs (\<lambda>t. timepointId t = i) (timepoints api)\<rparr>,
                [Info ''Preparing to remove timepoint'', Info_json_selector i,
                 Info ''Timepoint removal completed''])) \<and>
      (\<forall>api' l. removeTimepoint cfg api i = Inr (api', l) \<and> api' \<noteq> api \<longrightarrow>
         (\<exists>f. remove dx = Some f \<and> f i = Fulfilled () \<and>
            api' = api\<lparr>timepoints :=
                        remove_docs (\<lambda>t. timepointId t = i) (timepoints api)\<rparr>))) \<and>
   docs (remove_docs (\<lambda>t. timepointId t = i) (timepoints api)) =
     filter (\<lambda>t. timepointId t \<noteq> i) (docs (timepoints api)) \<and>
   (current api = None \<longrightarrow> lock api = api) \<and>
   (\<forall>c. current api = Some c \<and> wf_collection (timepoints api) \<longrightarrow>
      currentTimepointId (lock api) = currentTimepointId api \<and>
      next_id (timepoints (lock api)) = next_id (timepoints api) \<and>
      docs (timepoints (lock api)) =
        map (\<lambda>t. if t = c then t\<lparr>locked := True\<rparr> else t) (docs (timepoints api)) \<and>
      (lock api = api) = locked c)"
proof (intro conjI allI impI)
  assume "dataExchange cfg = None"
  then show "updateTimepoint cfg api i q = Inl TypeError"
    and "removeTimepoint cfg api i = Inl TypeError"
    by (simp_all add: updateTimepoint_def removeTimepoint_def)
next
  fix dx
  assume dx: "dataExchange cfg = Some dx"
  {
    assume "update dx = None"
    with dx show "updateTimepoint cfg api i q = Inr (api, [])"
      by (simp add: updateTimepoint_def)
  }
  {
    fix f
    assume "update dx = Some f \<and> f i q = Rejected"
    with dx show "updateTimepoint cfg api i q =
        Inr (api, [Info ''Preparing to update timepoint'', Info_json_selector i,
                   Info_json_modifier q])"
      by (simp add: updateTimepoint_def)
  }
  {
    fix f
    assume "update dx = Some f \<and> f i q = Fulfilled ()"
    with dx show "updateTimepoint cfg api i q =
        Inr (api\<lparr>timepoints := update_docs (\<lambda>t. timepointId t = i) q (timepoints api)\<rparr>,
             [Info ''Preparing to update timepoint'', Info_json_selector i,
              Info_json_modifier q, Info ''Timepoint updated completed''])"
      by (simp add: updateTimepoint_def)
  }
  {
    fix api' l
    assume "updateTimepoint cfg api i q = Inr (api', l) \<and> api' \<noteq> api"
    with dx show "\<exists>f. update dx = Some f \<and> f i q = Fulfilled () \<and>
        api' = api\<lparr>timepoints := update_docs (\<lambda>t. timepointId t = i) q (timepoints api)\<rparr>"
      by (auto simp: updateTimepoint_def Let_def split: option.splits promise.splits)
  }
  {
    assume "remove dx = None"
    with dx show "removeTimepoint cfg api i = Inr (api, [])"
      by (simp add: removeTimepoint_def)
  }
  {
    fix f
    assume "remove dx = Some f \<and> f i = Rejected"
    with dx show "removeTimepoint cfg api i =
        Inr (api, [Info ''Preparing to remove timepoint'', Info_json_selector i])"
      by (simp add: removeTimepoint_def)
  }
  {
    fix f
    assume "remove dx = Some f \<and> f i = Fulfilled ()"
    with dx show "removeTimepoint cfg api i =
        Inr (api\<lparr>timepoints := remove_docs (\<lambda>t. timepointId t = i) (timepoints api)\<rparr>,
             [Info ''Preparing to remove timepoint'', Info_json_selector i,
              Info ''Timepoint removal completed''])"
      by (simp add: removeTimepoint_def)
  }
  {
    fix api' l
    assume "removeTimepoint cfg api i = Inr (api', l) \<and> api' \<noteq> api"
    with dx show "\<exists>f. remove dx = Some f \<and> f i = Fulfilled () \<and>
        api' = api\<lparr>timepoints := remove_docs (\<lambda>t. timepointId t = i) (timepoints api)\<rparr>"
      by (auto simp: removeTimepoint_def Let_def split: option.splits promise.splits)
  }
next
  show "docs (remove_docs (\<lambda>t. timepointId t = i) (timepoints api)) =
          filter (\<lambda>t. timepointId t \<noteq> i) (docs (timepoints api))"
    by (simp add: remove_docs_def)
next
  assume "current api = None"
  then show "lock api = api" by (simp add: lock_def)
next
  fix c
  assume a: "current api = Some c \<and> wf_collection (timepoints api)"
  then show "currentTimepointId (lock api) = currentTimepointId api"
    by (simp add: lock_def)
  from a show "next_id (timepoints (lock api)) = next_id (timepoints api)"
    by (simp add: lock_def update_docs_def)
  from a show "docs (timepoints (lock api)) =
      map (\<lambda>t. if t = c then t\<lparr>locked := True\<rparr> else t) (docs (timepoints api))"
    by (simp add: lock_docs)
  from a show "(lock api = api) = locked c"
    by (simp add: lock_unchanged_iff)
qed

theorem mutations_after_round_trip_witness:
  "dataExchange \<lparr>dataExchange = Some example_exchange\<rparr> = Some example_exchange \<and>
   update example_exchange \<noteq> None \<and> remove example_exchange \<noteq> None \<and>
   map locked (docs (timepoints (fst (projr
     (updateTimepoint \<lparr>dataExchange = Some example_exchange\<rparr> example_api ''c''
        [Set_locked True]))))) = [False, False, True, False] \<and>
   map timepointId (docs (timepoints (fst (projr
     (removeTimepoint \<lparr>dataExchange = Some example_exchange\<rparr> example_api ''c''))))) =
     [''a'', ''b'', ''d''] \<and>
   dataExchange \<lparr>dataExchange = Some example_rejecting\<rparr> = Some example_rejecting \<and>
   update example_rejecting \<noteq> None \<and> remove example_rejecting = None \<and>
   fst (projr (updateTimepoint \<lparr>dataExchange = Some example_rejecting\<rparr> example_api ''c''
        [Set_locked True])) = example_api \<and>
   removeTimepoint \<lparr>dataExchange = Some example_rejecting\<rparr> example_api ''c'' =
     Inr (example_api, []) \<and>
   updateTimepoint \<lparr>dataExchange = None\<rparr> example_api ''c'' [Set_locked True] = Inl TypeError \<and>
   wf_collection (timepoints example_api) \<and>
   current example_api = Some (example_timepoint 1 ''b'' ''followup'' 3) \<and>
   map locked (docs (timepoints (lock example_api))) = [False, True, False, False] \<and>
   lock example_api \<noteq> example_api"
proof -
  let ?ok = "\<lparr>dataExchange = Some example_exchange\<rparr>"
  let ?no = "\<lparr>dataExchange = Some example_rejecting\<rparr>"
  let ?un = "\<lparr>dataExchange = None\<rparr>"
  let ?q = "[Set_locked True]"
  let ?b = "example_timepoint 1 ''b'' ''followup'' 3"
  have w: "wf_collection (timepoints example_api)"
    by (simp add: example_api_def example_timepoint_def wf_collection_def has_id_below_def)
  have c: "current example_api = Some ?b"
    by (simp add: example_api_def example_timepoint_def current_def findOne_def)
  have hok: "dataExchange ?ok = Some example_exchange"
    and hno: "dataExchange ?no = Some example_rejecting"
    and hun: "dataExchange ?un = None"
    by simp_all
  have u: "update example_exchange = Some (\<lambda>i q. Fulfilled ())"
          "remove example_exchange = Some (\<lambda>i. Fulfilled ())"
          "update example_rejecting = Some (\<lambda>i q. Rejected)"
          "remove example_rejecting = None"
    by (simp_all add: example_exchange_def example_rejecting_def)
  note ok = mutations_after_round_trip [of ?ok example_api "''c''" ?q,
      THEN conjunct2, THEN conjunct1, rule_format, OF hok]
  note no = mutations_after_round_trip [of ?no example_api "''c''" ?q,
      THEN conjunct2, THEN conjunct1, rule_format, OF hno]
  note un = mutations_after_round_trip [of ?un example_api "''c''" ?q,
      THEN conjunct1, rule_format, OF hun]
  note lk = mutations_after_round_trip [of ?ok example_api "''c''" ?q,
      THEN conjunct2, THEN conjunct2, THEN conjunct2, THEN conjunct2, rule_format, OF conjI, OF c w]
  from ok have "update example_exchange = Some (\<lambda>i q. Fulfilled ()) \<and>
                (\<lambda>i q. Fulfilled ()) ''c'' ?q = Fulfilled () \<longrightarrow>
      updateTimepoint ?ok example_api ''c'' ?q =
        Inr (example_api\<lparr>timepoints :=
               update_docs (\<lambda>t. timepointId t = ''c'') ?q (timepoints example_api)\<rparr>,
             [Info ''Preparing to update timepoint'', Info_json_selector ''c'',
              Info_json_modifier ?q, Info ''Timepoint updated completed''])"
    by blast
  with u have 1: "fst (projr (updateTimepoint ?ok example_api ''c'' ?q)) =
      example_api\<lparr>timepoints :=
        update_docs (\<lambda>t. timepointId t = ''c'') ?q (timepoints example_api)\<rparr>"
    by simp
  from ok have "remove example_exchange = Some (\<lambda>i. Fulfilled ()) \<and>
                (\<lambda>i. Fulfilled ()) ''c'' = Fulfilled () \<longrightarrow>
      removeTimepoint ?ok example_api ''c'' =
        Inr (example_api\<lparr>timepoints :=
               remove_docs (\<lambda>t. timepointId t = ''c'') (timepoints example_api)\<rparr>,
             [Info ''Preparing to remove timepoint'', Info_json_selector ''c'',
              Info ''Timepoint removal completed''])"
    by blast
  with u have 2: "fst (projr (removeTimepoint ?ok example_api ''c'')) =
      example_api\<lparr>timepoints :=
        remove_docs (\<lambda>t. timepointId t = ''c'') (timepoints example_api)\<rparr>"
    by simp
  from no have "update example_rejecting = Some (\<lambda>i q. Rejected) \<and>
                (\<lambda>i q. Rejected) ''c'' ?q = Rejected \<longrightarrow>
      updateTimepoint ?no example_api ''c'' ?q =
        Inr (example_api, [Info ''Preparing to update timepoint'', Info_json_selector ''c'',
                           Info_json_modifier ?q])"
    by blast
  with u have 3: "fst (projr (updateTimepoint ?no example_api ''c'' ?q)) = example_api"
    by simp
  from no have "remove example_rejecting = None \<longrightarrow>
      removeTimepoint ?no example_api ''c'' = Inr (example_api, [])"
    by blast
  with u have 4: "removeTimepoint ?no example_api ''c'' = Inr (example_api, [])"
    by simp
  from un have 5: "updateTimepoint ?un example_api ''c'' ?q = Inl TypeError"
    by blast
  from lk have 6: "docs (timepoints (lock example_api)) =
             map (\<lambda>t. if t = ?b then t\<lparr>locked := True\<rparr> else t) (docs (timepoints example_api))"
    and 7: "(lock example_api = example_api) = locked ?b"
    by blast+
  have 8: "map locked (docs (timepoints (lock example_api))) = [False, True, False, False]"
    unfolding 6 by (simp add: example_api_def example_timepoint_def)
  have 9: "lock example_api \<noteq> example_api"
    unfolding 7 by (simp add: example_timepoint_def)
  have 10: "map locked (docs (timepoints (fst (projr (updateTimepoint ?ok example_api ''c'' ?q))))) =
              [False, False, True, False]"
    unfolding 1
    by (simp add: update_docs_def apply_modifier_def example_api_def example_timepoint_def)
  have 11: "map timepointId (docs (timepoints (fst (projr (removeTimepoint ?ok example_api ''c''))))) =
              [''a'', ''b'', ''d'']"
    unfolding 2 by (simp add: remove_docs_def example_api_def example_timepoint_def)
  have 12: "update example_exchange \<noteq> None" "remove example_exchange \<noteq> None"
           "update example_rejecting \<noteq> None"
    by (simp_all add: u)
  show ?thesis
    using hok hno w c u(4) 3 4 5 8 9 10 11 12 by blast
qed

text \<open>
  Without a \<open>dataExchange\<close> object in the configuration, as in the module's initial
  configuration, the five operations throw when they read their function.
\<close>

lemma operations_without_dataExchange:
  assumes "dataExchange cfg = None"
  shows "retrieveTimepoints cfg api p = Inl TypeError"
    and "storeTimepoints cfg api = Inl TypeError"
    and "disassociateStudy cfg api ids uid = Inl TypeError"
    and "removeTimepoint cfg api i = Inl TypeError"
    and "updateTimepoint cfg api i q = Inl TypeError"
  using assms
  by (simp_all add: retrieveTimepoints_def storeTimepoints_def disassociateStudy_def
      removeTimepoint_def updateTimepoint_def)


subsection \<open>Retrieval\<close>

lemma wf_collection_ids:
  assumes "wf_collection c"
  shows "Some (next_id c) \<notin> set (map doc_id (docs c))"
proof
  assume "Some (next_id c) \<in> set (map doc_id (docs c))"
  then obtain t where "t \<in> set (docs c)" and "doc_id t = Some (next_id c)"
    by auto
  moreover from assms have "\<forall>t\<in>set (docs c). has_id_below (next_id c) t"
    by (simp add: wf_collection_def list_all_iff)
  ultimately show False
    by (fastforce simp: has_id_below_def)
qed

lemma has_id_below_Suc: "has_id_below n t \<Longrightarrow> has_id_below (Suc n) t"
  by (simp add: has_id_below_def split: option.splits)

lemma insert_doc_fresh:
  assumes "wf_collection c"
  shows "insert_doc c (t\<lparr>doc_id := None\<rparr>) =
           Inr \<lparr>docs = docs c @ [t\<lparr>doc_id := Some (next_id c)\<rparr>], next_id = Suc (next_id c)\<rparr>"
    and "wf_collection \<lparr>docs = docs c @ [t\<lparr>doc_id := Some (next_id c)\<rparr>],
                         next_id = Suc (next_id c)\<rparr>"
proof -
  from wf_collection_ids [OF assms]
  show "insert_doc c (t\<lparr>doc_id := None\<rparr>) =
           Inr \<lparr>docs = docs c @ [t\<lparr>doc_id := Some (next_id c)\<rparr>], next_id = Suc (next_id c)\<rparr>"
    by (simp add: insert_doc_def Let_def)
  from assms wf_collection_ids [OF assms]
  show "wf_collection \<lparr>docs = docs c @ [t\<lparr>doc_id := Some (next_id c)\<rparr>],
                         next_id = Suc (next_id c)\<rparr>"
    by (simp add: wf_collection_def list_all_iff has_id_below_Suc) (simp add: has_id_below_def)
qed

lemma insert_each_fresh:
  assumes "wf_collection c"
  shows "insert_each c ts =
           (\<lparr>docs = docs c @ fresh_ids (next_id c) ts, next_id = next_id c + length ts\<rparr>, None) \<and>
         wf_collection \<lparr>docs = docs c @ fresh_ids (next_id c) ts,
                         next_id = next_id c + length ts\<rparr>"
  using assms
proof (induction ts arbitrary: c)
  case Nil
  then show ?case by (simp add: wf_collection_def)
next
  case (Cons t ts)
  let ?c = "\<lparr>docs = docs c @ [t\<lparr>doc_id := Some (next_id c)\<rparr>], next_id = Suc (next_id c)\<rparr>"
  from insert_doc_fresh [OF Cons.prems, of t]
  have i: "insert_doc c (t\<lparr>doc_id := None\<rparr>) = Inr ?c" and w: "wf_collection ?c"
    by simp_all
  from Cons.IH [OF w] i show ?case
    by simp
qed

lemma insort_key_map:
  assumes "\<And>x. f (h x) = f x"
  shows "map h (insort_key f x xs) = insort_key f (h x) (map h xs)"
  by (induction xs) (simp_all add: assms)

lemma sort_key_map:
  assumes "\<And>x. f (h x) = f x"
  shows "map h (sort_key f xs) = sort_key f (map h xs)"
  by (induction xs) (simp_all add: insort_key_map assms)

lemma sort_desc_strip_id: "map strip_id (sort_desc ts) = sort_desc (map strip_id ts)"
  unfolding sort_desc_def by (rule sort_key_map) (simp add: strip_id_def)

lemma strip_id_fresh_ids: "map strip_id (fresh_ids n ts) = map strip_id ts"
  by (induction ts arbitrary: n) (simp_all add: strip_id_def)

text \<open>
  Claim C1, as stated, fails on a store that is not empty: the example store holds
  \<open>a\<close>, \<open>b\<close>, \<open>c\<close>, \<open>d\<close>, one record \<open>e\<close> is fetched, and after the retrieval has
  completed \<open>all\<close> returns five records, not the fetched one alone.
\<close>

theorem retrieveTimepoints_keeps_old_records:
  "retrieve example_exchange = Some example_retrieve \<and>
   example_retrieve (Some ''p'') = Fulfilled [example_timepoint 7 ''e'' ''followup'' 4] \<and>
   map timepointId (all example_api) = [''d'', ''b'', ''c'', ''a''] \<and>
   map timepointId (all (fst (projr
     (retrieveTimepoints \<lparr>dataExchange = Some example_exchange\<rparr> example_api (Some ''p''))))) =
     [''d'', ''e'', ''b'', ''c'', ''a''] \<and>
   snd (snd (projr
     (retrieveTimepoints \<lparr>dataExchange = Some example_exchange\<rparr> example_api (Some ''p'')))) =
     Promise_resolved"
  by (simp add: example_exchange_def example_retrieve_def example_api_def example_timepoint_def
      retrieveTimepoints_def insert_doc_def all_def sort_desc_def)

text \<open>
  Claim C1, amended. \<open>retrieveTimepoints\<close> does not clear the store: when the
  retrieval completes, the store holds the records it held before followed by the
  fetched records, each fetched record with a newly generated \<^verbatim>\<open>_id\<close> in place of the
  one it came with, and \<open>all\<close> returns these records by \<open>latestDate\<close> descending. Up
  to \<^verbatim>\<open>_id\<close>, \<open>all\<close> returns exactly the fetched records when the store was empty
  before the call.
\<close>

theorem retrieveTimepoints_appends:
  assumes "wf_collection (timepoints api)"
    and "dataExchange cfg = Some dx"
    and "retrieve dx = Some f"
    and "f p = Fulfilled fetched"
  shows "\<exists>api'. retrieveTimepoints cfg api p =
                  Inr (api', [Info ''Timepoint data retrieval'', Info_data fetched],
                       Promise_resolved) \<and>
           currentTimepointId api' = currentTimepointId api \<and>
           wf_collection (timepoints api') \<and>
           docs (timepoints api') =
             docs (timepoints api) @ fresh_ids (next_id (timepoints api)) fetched \<and>
           all api' =
             sort_desc (docs (timepoints api) @ fresh_ids (next_id (timepoints api)) fetched) \<and>
           map strip_id (all api') =
             sort_desc (map strip_id (docs (timepoints api)) @ map strip_id fetched) \<and>
           (docs (timepoints api) = [] \<longrightarrow>
              map strip_id (all api') = sort_desc (map strip_id fetched))"
proof -
  let ?c = "\<lparr>docs = docs (timepoints api) @ fresh_ids (next_id (timepoints api)) fetched,
             next_id = next_id (timepoints api) + length fetched\<rparr>"
  let ?api = "api\<lparr>timepoints := ?c\<rparr>"
  from insert_each_fresh [OF assms(1), of fetched]
  have e: "insert_each (timepoints api) fetched = (?c, None)" and w: "wf_collection ?c"
    by simp_all
  have r: "retrieveTimepoints cfg api p =
             Inr (?api, [Info ''Timepoint data retrieval'', Info_data fetched], Promise_resolved)"
    using assms(2-4) e by (simp add: retrieveTimepoints_def)
  have a: "all ?api =
             sort_desc (docs (timepoints api) @ fresh_ids (next_id (timepoints api)) fetched)"
    by (simp add: all_def)
  have s: "map strip_id (all ?api) =
             sort_desc (map strip_id (docs (timepoints api)) @ map strip_id fetched)"
    by (simp add: a sort_desc_strip_id strip_id_fresh_ids)
  show ?thesis
  proof (intro exI conjI impI)
    show "retrieveTimepoints cfg api p =
            Inr (?api, [Info ''Timepoint data retrieval'', Info_data fetched], Promise_resolved)"
      by (rule r)
    show "currentTimepointId ?api = currentTimepointId api" by simp
    show "wf_collection (timepoints ?api)" using w by simp
    show "docs (timepoints ?api) =
            docs (timepoints api) @ fresh_ids (next_id (timepoints api)) fetched"
      by simp
    show "all ?api =
            sort_desc (docs (timepoints api) @ fresh_ids (next_id (timepoints api)) fetched)"
      by (rule a)
    show "map strip_id (all ?api) =
            sort_desc (map strip_id (docs (timepoints api)) @ map strip_id fetched)"
      by (rule s)
    assume "docs (timepoints api) = []"
    with s show "map strip_id (all ?api) = sort_desc (map strip_id fetched)"
      by simp
  qed
qed

theorem retrieveTimepoints_appends_witness:
  "wf_collection (timepoints (constructor (Some ''b''))) \<and>
   dataExchange \<lparr>dataExchange = Some example_exchange\<rparr> = Some example_exchange \<and>
   retrieve example_exchange = Some example_retrieve \<and>
   example_retrieve (Some ''p'') = Fulfilled [example_timepoint 7 ''e'' ''followup'' 4] \<and>
   all (fst (projr
     (retrieveTimepoints \<lparr>dataExchange = Some example_exchange\<rparr> (constructor (Some ''b''))
        (Some ''p'')))) = [example_timepoint 0 ''e'' ''followup'' 4]"
  using retrieveTimepoints_appends
    [of "constructor (Some ''b'')" "\<lparr>dataExchange = Some example_exchange\<rparr>" example_exchange
        example_retrieve "Some ''p''" "[example_timepoint 7 ''e'' ''followup'' 4]"]
  by (simp add: example_exchange_def example_retrieve_def example_timepoint_def constructor_def
      empty_collection_def wf_collection_def retrieveTimepoints_def insert_doc_def all_def
      sort_desc_def)

subsection \<open>Key timepoints\<close>

lemma distinct_map_insort_key:
  "distinct (map h (insort_key f x xs)) = distinct (map h (x # xs))"
  by (induction xs) (auto simp: set_insort_key)

lemma distinct_map_sort_key: "distinct (map h (sort_key f xs)) = distinct (map h xs)"
  by (induction xs) (simp_all add: distinct_map_insort_key)

lemma insert_doc_with_id:
  assumes "doc_id t = Some i" and "Some i \<notin> set (map doc_id (docs r))"
  shows "insert_doc r t = Inr (r\<lparr>docs := docs r @ [t]\<rparr>)"
proof -
  from assms(1) have "t\<lparr>doc_id := Some i\<rparr> = t"
    by simp
  with assms show ?thesis
    by (simp add: insert_doc_def Let_def)
qed

lemma key_each_nths:
  assumes "distinct (map doc_id ts)"
    and "\<forall>t\<in>set ts. doc_id t \<noteq> None"
    and "set (map doc_id ts) \<inter> set (map doc_id (docs r)) = {}"
  shows "key_each ts i n r =
           Inr (r\<lparr>docs := docs r @ nths ts {j. j + i < 2 \<or> int (j + i) = n - 1}\<rparr>)"
  using assms
proof (induction ts arbitrary: i r)
  case Nil
  then show ?case by simp
next
  case (Cons t ts)
  let ?A = "{j. j + i < 2 \<or> int (j + i) = n - 1}"
  have shift: "{j. Suc j \<in> ?A} = {j. j + Suc i < 2 \<or> int (j + Suc i) = n - 1}"
    by simp
  from Cons.prems have d: "distinct (map doc_id ts)" and s: "\<forall>t\<in>set ts. doc_id t \<noteq> None"
    by simp_all
  show ?case
  proof (cases "i < 2 \<or> int i = n - 1")
    case True
    from Cons.prems(2) obtain k where k: "doc_id t = Some k"
      by auto
    from Cons.prems(3) k have "Some k \<notin> set (map doc_id (docs r))"
      by auto
    from insert_doc_with_id [OF k this]
    have ins: "insert_doc r t = Inr (r\<lparr>docs := docs r @ [t]\<rparr>)" .
    from Cons.prems have "set (map doc_id ts) \<inter> set (map doc_id (docs (r\<lparr>docs := docs r @ [t]\<rparr>))) = {}"
      by auto
    from Cons.IH [OF d s this, of "Suc i"] True ins show ?thesis
      by (simp add: nths_Cons shift del: add_Suc_right)
  next
    case False
    from Cons.prems have "set (map doc_id ts) \<inter> set (map doc_id (docs r)) = {}"
      by auto
    from Cons.IH [OF d s this, of "Suc i"] False show ?thesis
      by (simp add: nths_Cons shift del: add_Suc_right)
  qed
qed

lemma nths_cong_length:
  assumes "\<And>i. i < length xs \<Longrightarrow> (i \<in> A) = (i \<in> B)"
  shows "nths xs A = nths xs B"
proof -
  have "filter (\<lambda>p. snd p \<in> A) (zip xs [0..<length xs]) =
        filter (\<lambda>p. snd p \<in> B) (zip xs [0..<length xs])"
    by (rule filter_cong) (auto simp: assms dest: set_zip_rightD)
  then show ?thesis
    by (simp add: nths_def)
qed

lemma wf_collection_all:
  assumes "wf_collection (timepoints api)"
  shows "distinct (map doc_id (all api))" and "\<forall>t\<in>set (all api). doc_id t \<noteq> None"
proof -
  from assms show "distinct (map doc_id (all api))"
    by (simp add: all_def sort_desc_def distinct_map_sort_key wf_collection_def)
  from assms have "\<forall>t\<in>set (docs (timepoints api)). has_id_below (next_id (timepoints api)) t"
    by (simp add: wf_collection_def list_all_iff)
  then show "\<forall>t\<in>set (all api). doc_id t \<noteq> None"
    by (auto simp: all_def sort_desc_def has_id_below_def split: option.splits)
qed

lemma key_nths:
  assumes "wf_collection (timepoints api)"
  shows "key api = Inr (nths (all api) {0, 1, length (all api) - 1})"
proof -
  let ?n = "length (all api)"
  have "key_each (all api) 0 (int ?n) empty_collection =
          Inr (empty_collection\<lparr>docs := docs empty_collection @
                 nths (all api) {j. j + 0 < 2 \<or> int (j + 0) = int ?n - 1}\<rparr>)"
    using wf_collection_all [OF assms] by (intro key_each_nths) (simp_all add: empty_collection_def)
  moreover have "nths (all api) {j. j + 0 < 2 \<or> int (j + 0) = int ?n - 1} =
                 nths (all api) {0, 1, ?n - 1}"
    by (rule nths_cong_length) auto
  ultimately show ?thesis
    by (simp add: key_def empty_collection_def Let_def)
qed

lemma wf_collection_retype:
  "wf_collection (timepoints (retype g api)) = wf_collection (timepoints api)"
  by (simp add: retype_def wf_collection_def list_all_iff has_id_below_def comp_def)

lemma all_retype: "all (retype g api) = map (\<lambda>t. t\<lparr>timepointType := g t\<rparr>) (all api)"
  by (simp add: retype_def all_def sort_desc_def sort_key_map)

text \<open>
  Claim C7. \<open>key\<close> returns the entries of \<open>all\<close> at the positions 0, 1 and the last
  one, each position once, in the order of \<open>all\<close>. The choice does not look at
  \<open>timepointType\<close>: on the store with its records retyped in any way, \<open>key\<close> returns
  the records at the same positions. So the baseline record need not be among them.
\<close>

theorem key_by_position:
  assumes "wf_collection (timepoints api)"
  shows "key api = Inr (nths (all api) {0, 1, length (all api) - 1}) \<and>
         key (retype g api) =
           Inr (map (\<lambda>t. t\<lparr>timepointType := g t\<rparr>) (nths (all api) {0, 1, length (all api) - 1}))"
proof
  show "key api = Inr (nths (all api) {0, 1, length (all api) - 1})"
    by (rule key_nths [OF assms])
  from assms have "wf_collection (timepoints (retype g api))"
    by (simp add: wf_collection_retype)
  from key_nths [OF this]
  show "key (retype g api) =
          Inr (map (\<lambda>t. t\<lparr>timepointType := g t\<rparr>) (nths (all api) {0, 1, length (all api) - 1}))"
    by (simp add: all_retype nths_map)
qed

theorem key_by_position_witness:
  "wf_collection (timepoints example_api2) \<and>
   map timepointId (all example_api2) = [''d'', ''b'', ''a'', ''c''] \<and>
   map timepointId (projr (key example_api2)) = [''d'', ''b'', ''c''] \<and>
   map_option timepointId (baseline example_api2) = Some ''a''"
proof -
  have w: "wf_collection (timepoints example_api2)"
    by (simp add: example_api2_def example_timepoint_def wf_collection_def has_id_below_def)
  have a: "all example_api2 =
             [example_timepoint 3 ''d'' ''followup'' 5, example_timepoint 1 ''b'' ''followup'' 3,
              example_timepoint 0 ''a'' ''baseline'' 2, example_timepoint 2 ''c'' ''followup'' 1]"
    by (simp add: example_api2_def example_timepoint_def all_def sort_desc_def)
  have "key example_api2 = Inr (nths (all example_api2) {0, 1, length (all example_api2) - 1})"
    using key_by_position [OF w, of timepointType] by simp
  then have k: "key example_api2 =
                  Inr [example_timepoint 3 ''d'' ''followup'' 5,
                       example_timepoint 1 ''b'' ''followup'' 3,
                       example_timepoint 2 ''c'' ''followup'' 1]"
    by (simp add: a nths_Cons)
  have b: "map_option timepointId (baseline example_api2) = Some ''a''"
    by (simp add: example_api2_def example_timepoint_def baseline_def findOne_def)
  from w a k b show ?thesis
    by (simp add: example_timepoint_def)
qed

text \<open>
  Claim C9. On a store of at most three records \<open>key\<close> returns the same sequence as
  \<open>all\<close>, and no record occurs in it twice.
\<close>

theorem key_of_small_store:
  assumes "wf_collection (timepoints api)" and "length (docs (timepoints api)) \<le> 3"
  shows "key api = Inr (all api) \<and> distinct (all api)"
proof
  have n: "length (all api) \<le> 3"
    using assms(2) by (simp add: all_def sort_desc_def)
  have "nths (all api) {0, 1, length (all api) - 1} = all api"
  proof (rule nths_all)
    show "\<forall>i<length (all api). i \<in> {0, 1, length (all api) - 1}"
      using n by auto
  qed
  with key_nths [OF assms(1)] show "key api = Inr (all api)"
    by simp
  from wf_collection_all(1) [OF assms(1)] show "distinct (all api)"
    by (rule distinct_map [THEN iffD1, THEN conjunct1])
qed

theorem key_of_small_store_witness:
  "wf_collection (timepoints example_small) \<and>
   length (docs (timepoints example_small)) \<le> 3 \<and>
   key example_small =
     Inr [example_timepoint 1 ''b'' ''followup'' 3, example_timepoint 0 ''a'' ''baseline'' 1] \<and>
   all example_small =
     [example_timepoint 1 ''b'' ''followup'' 3, example_timepoint 0 ''a'' ''baseline'' 1]"
proof -
  have w: "wf_collection (timepoints example_small)"
    by (simp add: example_small_def example_timepoint_def wf_collection_def has_id_below_def)
  have l: "length (docs (timepoints example_small)) \<le> 3"
    by (simp add: example_small_def)
  have a: "all example_small =
             [example_timepoint 1 ''b'' ''followup'' 3, example_timepoint 0 ''a'' ''baseline'' 1]"
    by (simp add: example_small_def example_timepoint_def all_def sort_desc_def)
  from key_of_small_store [OF w l] w l a show ?thesis
    by simp
qed

lemma prior_Some_D:
  assumes "current api = Some c" and "prior api = Some p"
  shows "p \<in> set (docs (timepoints api))" and "latestDate p < latestDate c"
proof -
  from assms have "findOne (sort_desc (filter (\<lambda>t. latestDate t < latestDate c)
                                             (docs (timepoints api)))) = Some p"
    by (simp add: prior_def)
  then obtain ps where
    "sort_desc (filter (\<lambda>t. latestDate t < latestDate c) (docs (timepoints api))) = p # ps"
    by (auto simp: findOne_Some_iff)
  from sort_desc_Cons_D(1) [OF this]
  show "p \<in> set (docs (timepoints api))" and "latestDate p < latestDate c"
    by simp_all
qed

text \<open>
  Claim C8. On a store with at most one record per \<open>timepointId\<close>, \<open>currentAndPrior\<close>
  is empty without a current record, the current record alone when there is no prior
  one, and the current record followed by the prior one otherwise (the prior record,
  being dated earlier, is never the current one). No two of its entries have the
  same \<open>timepointId\<close>.
\<close>

theorem currentAndPrior_distinct:
  assumes "wf_collection (timepoints api)"
    and "distinct (map timepointId (docs (timepoints api)))"
  shows "currentAndPrior api =
           (case current api of
              None \<Rightarrow> []
            | Some c \<Rightarrow> (case prior api of None \<Rightarrow> [c] | Some p \<Rightarrow> [c, p])) \<and>
         distinct (map timepointId (currentAndPrior api))"
proof (cases "current api")
  case None
  then show ?thesis
    by (simp add: currentAndPrior_def)
next
  case c: (Some c)
  show ?thesis
  proof (cases "prior api")
    case None
    with c show ?thesis
      by (simp add: currentAndPrior_def)
  next
    case p: (Some p)
    from current_Some_D(1) [OF c] have cm: "c \<in> set (docs (timepoints api))" .
    from prior_Some_D [OF c p]
    have pm: "p \<in> set (docs (timepoints api))" and lt: "latestDate p < latestDate c"
      by simp_all
    from lt have ne: "p \<noteq> c"
      by auto
    from assms(1) have "inj_on doc_id (set (docs (timepoints api)))"
      by (simp add: wf_collection_def distinct_map)
    with cm pm ne have i: "doc_id p \<noteq> doc_id c"
      by (auto dest: inj_onD)
    from assms(2) have "inj_on timepointId (set (docs (timepoints api)))"
      by (simp add: distinct_map)
    with cm pm ne have "timepointId p \<noteq> timepointId c"
      by (auto dest: inj_onD)
    with c p i show ?thesis
      by (auto simp: currentAndPrior_def)
  qed
qed

theorem currentAndPrior_distinct_witness:
  "wf_collection (timepoints example_api) \<and>
   distinct (map timepointId (docs (timepoints example_api))) \<and>
   currentAndPrior example_api =
     [example_timepoint 1 ''b'' ''followup'' 3, example_timepoint 2 ''c'' ''followup'' 2] \<and>
   distinct (map timepointId (currentAndPrior example_api))"
proof -
  have w: "wf_collection (timepoints example_api)"
    by (simp add: example_api_def example_timepoint_def wf_collection_def has_id_below_def)
  have d: "distinct (map timepointId (docs (timepoints example_api)))"
    by (simp add: example_api_def example_timepoint_def)
  have c: "current example_api = Some (example_timepoint 1 ''b'' ''followup'' 3)"
    by (simp add: example_api_def example_timepoint_def current_def findOne_def)
  have p: "prior example_api = Some (example_timepoint 2 ''c'' ''followup'' 2)"
    by (simp add: c prior_def)
       (simp add: example_api_def example_timepoint_def findOne_def sort_desc_def)
  from currentAndPrior_distinct [OF w d] w d c p show ?thesis
    by (simp add: example_timepoint_def)
qed

subsection \<open>Names\<close>

lemma indexOf_takeWhile:
  "indexOf xs x = (if x \<in> set xs then int (length (takeWhile (\<lambda>y. y \<noteq> x) xs)) else - 1)"
  by (induction xs) (auto simp: Let_def)

lemma name_rank:
  "name api t =
     (if timepointType t = ''baseline'' then (Some ''Baseline'', [])
      else (case rank (timepointId t) (ranked_ids api t) of
              Some k \<Rightarrow> (Some (''Follow-up '' @ decimal k), [])
            | None \<Rightarrow>
                (None, [Warn ''Current follow-up was not in the list of relevant follow-ups?''])))"
proof (cases "timepointType t = ''baseline''")
  case True
  then show ?thesis by (simp add: name_def)
next
  case False
  let ?ids = "ranked_ids api t"
  have i: "indexOf ?ids (timepointId t) + 1 =
             (case rank (timepointId t) ?ids of Some k \<Rightarrow> int k | None \<Rightarrow> 0)"
    by (simp add: indexOf_takeWhile rank_def)
  show ?thesis
  proof (cases "rank (timepointId t) ?ids")
    case None
    with i False show ?thesis
      by (simp add: name_def Let_def ranked_ids_def sort_asc_def)
  next
    case (Some k)
    then have "0 < k"
      by (auto simp: rank_def split: if_splits)
    with i Some False show ?thesis
      by (simp add: name_def Let_def ranked_ids_def sort_asc_def)
  qed
qed

lemma rank_stored:
  assumes "t \<in> set (docs (timepoints api))"
  shows "rank (timepointId t) (ranked_ids api t) \<noteq> None"
proof -
  from assms have "timepointId t \<in> set (ranked_ids api t)"
    by (auto simp: ranked_ids_def)
  then show ?thesis
    by (simp add: rank_def)
qed

text \<open>
  Claim C5. \<open>name\<close> returns \<open>Baseline\<close> for a timepoint of type baseline, whatever
  the store holds. Otherwise it returns \<open>Follow-up k\<close>, with \<open>k\<close> the 1-based rank of
  the timepoint's \<open>timepointId\<close> among the \<open>timepointId\<close>s of the records of the same
  patient and type by \<open>latestDate\<close> ascending; when the \<open>timepointId\<close> is not among
  them it logs a warning and returns \<^verbatim>\<open>undefined\<close>. For a stored timepoint the rank
  always exists.
\<close>

theorem name_by_rank:
  "name api t =
     (if timepointType t = ''baseline'' then (Some ''Baseline'', [])
      else (case rank (timepointId t) (ranked_ids api t) of
              Some k \<Rightarrow> (Some (''Follow-up '' @ decimal k), [])
            | None \<Rightarrow>
                (None, [Warn ''Current follow-up was not in the list of relevant follow-ups?'']))) \<and>
   (t \<in> set (docs (timepoints api)) \<longrightarrow> rank (timepointId t) (ranked_ids api t) \<noteq> None)"
  using name_rank [of api t] rank_stored [of t api] by blast

theorem name_by_rank_witness:
  "example_timepoint 1 ''b'' ''followup'' 3 \<in> set (docs (timepoints example_api)) \<and>
   ranked_ids example_api (example_timepoint 1 ''b'' ''followup'' 3) = [''c'', ''b'', ''d''] \<and>
   name example_api (example_timepoint 1 ''b'' ''followup'' 3) = (Some ''Follow-up 2'', []) \<and>
   name example_api (example_timepoint 0 ''a'' ''baseline'' 1) = (Some ''Baseline'', []) \<and>
   name example_api (example_timepoint 8 ''z'' ''followup'' 9) =
     (None, [Warn ''Current follow-up was not in the list of relevant follow-ups?''])"
proof -
  let ?a = "example_timepoint 0 ''a'' ''baseline'' 1"
  let ?b = "example_timepoint 1 ''b'' ''followup'' 3"
  let ?z = "example_timepoint 8 ''z'' ''followup'' 9"
  have m: "?b \<in> set (docs (timepoints example_api))"
    by (simp add: example_api_def)
  have r: "ranked_ids example_api ?b = [''c'', ''b'', ''d'']"
          "ranked_ids example_api ?z = [''c'', ''b'', ''d'']"
    by (simp_all add: ranked_ids_def example_api_def example_timepoint_def)
  have f: "timepointType ?a = ''baseline''" "timepointType ?b = ''followup''"
          "timepointType ?z = ''followup''" "timepointId ?b = ''b''" "timepointId ?z = ''z''"
    by (simp_all add: example_timepoint_def)
  have k: "rank ''b'' [''c'', ''b'', ''d''] = Some 2" "rank ''z'' [''c'', ''b'', ''d''] = None"
    by (simp_all add: rank_def)
  have d: "decimal 2 = ''2''"
    by (simp add: decimal.simps digit_char_def)
  have "name example_api ?b = (Some ''Follow-up 2'', [])"
    using name_by_rank [of example_api ?b] by (simp add: f r k d del: One_nat_def)
  moreover have "name example_api ?a = (Some ''Baseline'', [])"
    using name_by_rank [of example_api ?a] by (simp add: f del: One_nat_def)
  moreover have "name example_api ?z =
      (None, [Warn ''Current follow-up was not in the list of relevant follow-ups?''])"
    using name_by_rank [of example_api ?z] by (simp add: f r k del: One_nat_def)
  ultimately show ?thesis
    using m r by simp
qed

subsection \<open>Titles\<close>

lemma title_loop_before:
  assumes "\<forall>u\<in>set pre. cur \<noteq> Some (timepointId u)"
  shows "title_loop cur x (pre @ rest) idx None =
           (if x \<in> timepointId ` set pre then idx else title_loop cur x rest idx None)"
  using assms by (induction pre) auto

lemma title_loop_count:
  assumes "\<forall>u\<in>set ws. cur \<noteq> Some (timepointId u)" and "x \<in> timepointId ` set ws"
  shows "title_loop cur x ws idx (Some k) =
           k + int (length (takeWhile (\<lambda>u. timepointId u \<noteq> x) ws))"
  using assms
proof (induction ws arbitrary: idx k)
  case Nil
  then show ?case by simp
next
  case (Cons u ws)
  show ?case
  proof (cases "timepointId u = x")
    case True
    with Cons.prems show ?thesis by simp
  next
    case False
    with Cons.prems have "x \<in> timepointId ` set ws"
      by auto
    with Cons.IH [of k "k + 1"] Cons.prems(1) False show ?thesis
      by simp
  qed
qed

lemma title_loop_distinct:
  assumes d: "distinct (map timepointId ts)" and t: "t \<in> set ts"
  shows "title_loop cur (timepointId t) ts (- 1) None =
           (let w = dropWhile (\<lambda>u. cur \<noteq> Some (timepointId u)) ts
            in if t \<in> set w then int (length (takeWhile (\<lambda>u. u \<noteq> t) w)) else - 1)"
proof -
  let ?P = "\<lambda>u. cur \<noteq> Some (timepointId u)"
  let ?pre = "takeWhile ?P ts"
  let ?w = "dropWhile ?P ts"
  have split: "ts = ?pre @ ?w"
    by simp
  have inj: "\<And>u. u \<in> set ts \<Longrightarrow> (timepointId u = timepointId t) = (u = t)"
    using d t by (auto simp: distinct_map dest: inj_onD)
  have pre: "\<forall>u\<in>set ?pre. ?P u"
    by (auto dest: set_takeWhileD)
  from d have "distinct ts"
    by (rule distinct_map [THEN iffD1, THEN conjunct1])
  with split have disj: "set ?pre \<inter> set ?w = {}"
    by (metis distinct_append)
  from d split have dw0: "distinct (map timepointId ?w)"
    by (metis distinct_append map_append)
  have loop: "title_loop cur (timepointId t) ts (- 1) None =
                (if timepointId t \<in> timepointId ` set ?pre then - 1
                 else title_loop cur (timepointId t) ?w (- 1) None)"
    using title_loop_before [OF pre, of "timepointId t" ?w "- 1"] by simp
  show ?thesis
  proof (cases "t \<in> set ?w")
    case False
    with t split have "t \<in> set ?pre"
      by (metis Un_iff set_append)
    with loop False show ?thesis
      by (simp add: Let_def)
  next
    case True
    have notpre: "timepointId t \<notin> timepointId ` set ?pre"
    proof
      assume "timepointId t \<in> timepointId ` set ?pre"
      then obtain u where u: "u \<in> set ?pre" and "timepointId u = timepointId t"
        by auto
      moreover from u have "u \<in> set ts"
        by (rule set_takeWhileD [THEN conjunct1])
      ultimately have "u = t"
        using inj by simp
      with u True disj show False
        by auto
    qed
    from True obtain c ws where w: "?w = c # ws"
      by (cases ?w) auto
    then have c: "cur = Some (timepointId c)"
      using hd_dropWhile [of ?P ts] by auto
    from dw0 w have dw: "distinct (map timepointId (c # ws))"
      by simp
    have sub: "set (c # ws) \<subseteq> set ts"
      using w set_dropWhileD [of _ ?P ts] by (metis subsetI)
    show ?thesis
    proof (cases "c = t")
      case True
      with loop notpre w c show ?thesis
        by (simp add: Let_def)
    next
      case ne: False
      with True w have tw: "t \<in> set ws"
        by simp
      from sub ne inj have ct: "timepointId c \<noteq> timepointId t"
        by auto
      have nocur: "\<forall>u\<in>set ws. cur \<noteq> Some (timepointId u)"
        using dw c by auto
      have same: "takeWhile (\<lambda>u. timepointId u \<noteq> timepointId t) ws = takeWhile (\<lambda>u. u \<noteq> t) ws"
        by (rule takeWhile_cong) (use sub inj in auto)
      from tw have "timepointId t \<in> timepointId ` set ws"
        by simp
      from title_loop_count [OF nocur this, of 0 1]
      have "title_loop cur (timepointId t) ws 0 (Some 1) =
              1 + int (length (takeWhile (\<lambda>u. u \<noteq> t) ws))"
        by (simp add: same)
      with loop notpre w c ct ne True show ?thesis
        by (simp add: Let_def)
    qed
  qed
qed

lemma states_suffix:
  "states (case off of None \<Rightarrow> - 1 | Some k \<Rightarrow> int k) = suffix off"
proof (cases off)
  case None
  then show ?thesis by (simp add: states_def suffix_def)
next
  case (Some k)
  then show ?thesis
    by (cases k rule: nat.exhaust [case_names zero suc])
       (auto simp: states_def suffix_def split: nat.splits)
qed

lemma distinct_timepointId_all:
  "distinct (map timepointId (all api)) = distinct (map timepointId (docs (timepoints api)))"
  by (simp add: all_def sort_desc_def distinct_map_sort_key)

lemma set_all: "set (all api) = set (docs (timepoints api))"
  by (simp add: all_def sort_desc_def)

lemma title_offset:
  assumes d: "distinct (map timepointId (docs (timepoints api)))"
    and t: "t \<in> set (docs (timepoints api))"
  shows "\<exists>n. name api t = (Some n, []) \<and>
              title api t = (n @ '' '' @ suffix (relative_offset api t), [])"
proof -
  from name_rank [of api t] rank_stored [OF t]
  obtain n where n: "name api t = (Some n, [])"
    by (auto split: if_splits)
  have "title_loop (currentTimepointId api) (timepointId t) (all api) (- 1) None =
          (case relative_offset api t of None \<Rightarrow> - 1 | Some k \<Rightarrow> int k)"
    using title_loop_distinct [of "all api" t "currentTimepointId api"] d t
    by (simp add: distinct_timepointId_all set_all relative_offset_def walk_from_current_def Let_def)
  with n have "title api t = (n @ '' '' @ suffix (relative_offset api t), [])"
    by (simp add: title_def states_suffix)
  with n show ?thesis
    by blast
qed

lemma current_distinct:
  assumes d: "distinct (map timepointId (docs (timepoints api)))"
    and c: "c \<in> set (docs (timepoints api))"
    and i: "currentTimepointId api = Some (timepointId c)"
  shows "current api = Some c"
proof -
  let ?m = "filter (\<lambda>u. currentTimepointId api = Some (timepointId u)) (docs (timepoints api))"
  from c i have "c \<in> set ?m"
    by simp
  then obtain h hs where h: "?m = h # hs"
    by (cases ?m) auto
  then have "h \<in> set ?m"
    by simp
  then have "h \<in> set (docs (timepoints api))" and "timepointId h = timepointId c"
    using i by simp_all
  with d c have "h = c"
    by (auto simp: distinct_map dest: inj_onD)
  with h show ?thesis
    by (simp add: current_def findOne_def)
qed

lemma walk_from_current_Cons:
  assumes d: "distinct (map timepointId (docs (timepoints api)))"
  shows "(\<exists>ws. walk_from_current api = c # ws) =
         (current api = Some c)"
proof
  assume "\<exists>ws. walk_from_current api = c # ws"
  then obtain ws where w: "walk_from_current api = c # ws"
    by blast
  then have "currentTimepointId api = Some (timepointId c)"
    using hd_dropWhile [of "\<lambda>u. currentTimepointId api \<noteq> Some (timepointId u)" "all api"]
    by (auto simp: walk_from_current_def)
  moreover have "c \<in> set (all api)"
    using w set_dropWhileD [of c "\<lambda>u. currentTimepointId api \<noteq> Some (timepointId u)" "all api"]
    by (simp add: walk_from_current_def)
  ultimately show "current api = Some c"
    using current_distinct [OF d] by (simp add: set_all)
next
  assume c: "current api = Some c"
  let ?P = "\<lambda>u. currentTimepointId api \<noteq> Some (timepointId u)"
  from current_Some_D [OF c]
  have m: "c \<in> set (all api)" and i: "currentTimepointId api = Some (timepointId c)"
    by (simp_all add: set_all)
  then have "dropWhile ?P (all api) \<noteq> []"
    by (auto simp: dropWhile_eq_Nil_conv)
  then obtain h hs where h: "dropWhile ?P (all api) = h # hs"
    by (cases "dropWhile ?P (all api)") auto
  then have "currentTimepointId api = Some (timepointId h)"
    using hd_dropWhile [of ?P "all api"] by auto
  moreover have "h \<in> set (all api)"
    using h set_dropWhileD [of h ?P "all api"] by simp
  ultimately have "h = c"
    using d m i by (auto simp: set_all distinct_map dest: inj_onD)
  with h show "\<exists>ws. walk_from_current api = c # ws"
    by (simp add: walk_from_current_def)
qed

lemma relative_offset_0:
  assumes d: "distinct (map timepointId (docs (timepoints api)))"
  shows "(relative_offset api t = Some 0) = (current api = Some t)"
proof -
  have "(relative_offset api t = Some 0) = (\<exists>ws. walk_from_current api = t # ws)"
    by (cases "walk_from_current api") (auto simp: relative_offset_def Let_def)
  with walk_from_current_Cons [OF d] show ?thesis
    by simp
qed

lemma walk_from_current_append:
  assumes d: "distinct (map timepointId (docs (timepoints api)))"
    and c: "current api = Some c"
    and a: "all api = pre @ c # post"
  shows "walk_from_current api = c # post"
proof -
  let ?P = "\<lambda>u. currentTimepointId api \<noteq> Some (timepointId u)"
  from current_Some_D(2) [OF c] have i: "currentTimepointId api = Some (timepointId c)" .
  from d have "distinct (map timepointId (pre @ c # post))"
    by (simp add: distinct_timepointId_all [symmetric] a)
  then have "timepointId c \<notin> timepointId ` set pre"
    by auto
  then have "\<forall>u\<in>set pre. timepointId c \<noteq> timepointId u"
    by (metis imageI)
  with i have "dropWhile ?P pre = []"
    by (simp add: dropWhile_eq_Nil_conv)
  with i show ?thesis
    by (simp add: walk_from_current_def a dropWhile_append3)
qed

lemma relative_offset_1:
  assumes d: "distinct (map timepointId (docs (timepoints api)))"
  shows "(relative_offset api t = Some 1) =
         (\<exists>c pre post. current api = Some c \<and> all api = pre @ c # t # post)"
proof
  assume r: "relative_offset api t = Some 1"
  let ?P = "\<lambda>u. currentTimepointId api \<noteq> Some (timepointId u)"
  let ?w = "walk_from_current api"
  from r have tw: "t \<in> set ?w" and l: "length (takeWhile (\<lambda>u. u \<noteq> t) ?w) = 1"
    by (auto simp: relative_offset_def Let_def split: if_splits)
  from tw obtain c ws where w: "?w = c # ws"
    by (cases ?w) auto
  with l have ne: "c \<noteq> t" and "takeWhile (\<lambda>u. u \<noteq> t) ws = []"
    by (auto split: if_splits)
  with tw w obtain post where ws: "ws = t # post"
    by (cases ws) (auto split: if_splits)
  have "all api = takeWhile ?P (all api) @ c # t # post"
    using w ws takeWhile_dropWhile_id [of ?P "all api"] by (simp add: walk_from_current_def)
  moreover from w have "current api = Some c"
    using walk_from_current_Cons [OF d, of c] by blast
  ultimately show "\<exists>c pre post. current api = Some c \<and> all api = pre @ c # t # post"
    by blast
next
  assume "\<exists>c pre post. current api = Some c \<and> all api = pre @ c # t # post"
  then obtain c pre post where c: "current api = Some c" and a: "all api = pre @ c # t # post"
    by blast
  from walk_from_current_append [OF d c a] have w: "walk_from_current api = c # t # post" .
  from d have "distinct (map timepointId (all api))"
    by (simp add: distinct_timepointId_all)
  then have "distinct (all api)"
    by (rule distinct_map [THEN iffD1, THEN conjunct1])
  with a have "c \<noteq> t"
    by auto
  with w show "relative_offset api t = Some 1"
    by (simp add: relative_offset_def)
qed

text \<open>
  Claim C6, as stated, fails on a store in which two records share a \<open>timepointId\<close>:
  the loop stops at the first record that carries the \<open>timepointId\<close> of the target. In
  the example the target is the third record of \<open>all\<close>, at offset 2 from the current
  one, and its title ends in \<open>(Prior)\<close>.
\<close>

theorem title_stops_at_first_timepointId:
  "example_timepoint 2 ''b'' ''followup'' 1 \<in> set (docs (timepoints example_dup)) \<and>
   all example_dup =
     [example_timepoint 0 ''a'' ''followup'' 3, example_timepoint 1 ''b'' ''followup'' 2,
      example_timepoint 2 ''b'' ''followup'' 1] \<and>
   current example_dup = Some (example_timepoint 0 ''a'' ''followup'' 3) \<and>
   relative_offset example_dup (example_timepoint 2 ''b'' ''followup'' 1) = Some 2 \<and>
   title example_dup (example_timepoint 2 ''b'' ''followup'' 1) = (''Follow-up 1 (Prior)'', [])"
  by (simp add: example_dup_def example_timepoint_def all_def sort_desc_def current_def
      findOne_def relative_offset_def walk_from_current_def title_def name_def sort_asc_def
      states_def decimal.simps digit_char_def)


text \<open>
  Claim C6, amended. On a store with at most one record per \<open>timepointId\<close>, the title
  of a stored timepoint is its name, a space, and the suffix of its relative offset
  in the walk of \<open>all\<close> from the current record on: \<open>(Current)\<close> at offset 0, \<open>(Prior)\<close>
  at offset 1, empty otherwise. Offset 0 is the current record itself and offset 1 is
  the record that follows the current one in \<open>all\<close>.
\<close>

theorem title_by_offset:
  assumes "distinct (map timepointId (docs (timepoints api)))"
    and "t \<in> set (docs (timepoints api))"
  shows "(\<exists>n. name api t = (Some n, []) \<and>
               title api t = (n @ '' '' @ suffix (relative_offset api t), [])) \<and>
         (relative_offset api t = Some 0) = (current api = Some t) \<and>
         (relative_offset api t = Some 1) =
           (\<exists>c pre post. current api = Some c \<and> all api = pre @ c # t # post)"
  using title_offset [OF assms] relative_offset_0 [OF assms(1)] relative_offset_1 [OF assms(1)]
  by blast

theorem title_by_offset_witness:
  "distinct (map timepointId (docs (timepoints example_api))) \<and>
   example_timepoint 2 ''c'' ''followup'' 2 \<in> set (docs (timepoints example_api)) \<and>
   map timepointId (all example_api) = [''d'', ''b'', ''c'', ''a''] \<and>
   currentTimepointId example_api = Some ''b'' \<and>
   relative_offset example_api (example_timepoint 2 ''c'' ''followup'' 2) = Some 1 \<and>
   title example_api (example_timepoint 2 ''c'' ''followup'' 2) = (''Follow-up 1 (Prior)'', [])"
proof -
  let ?c = "example_timepoint 2 ''c'' ''followup'' 2"
  have d: "distinct (map timepointId (docs (timepoints example_api)))"
    by (simp add: example_api_def example_timepoint_def)
  have m: "?c \<in> set (docs (timepoints example_api))"
    by (simp add: example_api_def)
  have a: "map timepointId (all example_api) = [''d'', ''b'', ''c'', ''a'']"
    by (simp add: example_api_def example_timepoint_def all_def sort_desc_def)
  have i: "currentTimepointId example_api = Some ''b''"
    by (simp add: example_api_def)
  have r: "relative_offset example_api ?c = Some 1"
    by (simp add: relative_offset_def walk_from_current_def example_api_def example_timepoint_def
        all_def sort_desc_def)
  have n: "name example_api ?c = (Some ''Follow-up 1'', [])"
    by (simp add: name_def sort_asc_def example_api_def example_timepoint_def decimal.simps
        digit_char_def)
  from title_by_offset [OF d m] n r
  have "title example_api ?c = (''Follow-up 1 (Prior)'', [])"
    by (simp add: suffix_def)
  with d m a i r show ?thesis
    by simp
qed

subsection \<open>The invariant of the collection\<close>

text \<open>
  A new store satisfies the representation invariant, and every operation keeps it:
  the hypothesis \<open>wf_collection\<close> of the theorems above holds of every store that
  the class can produce.
\<close>

lemma wf_collection_constructor: "wf_collection (timepoints (constructor given))"
  by (simp add: constructor_def empty_collection_def wf_collection_def)

lemma doc_id_apply_modifier: "doc_id (apply_modifier m t) = doc_id t"
proof -
  have "doc_id (fold set_field m t) = doc_id t"
  proof (induction m arbitrary: t)
    case Nil
    then show ?case by simp
  next
    case (Cons f m)
    have "doc_id (set_field f t) = doc_id t"
      by (cases f) simp_all
    with Cons show ?case by simp
  qed
  then show ?thesis by (simp add: apply_modifier_def)
qed

lemma doc_id_update_first: "map doc_id (update_first sel m ts) = map doc_id ts"
  by (induction ts) (simp_all add: doc_id_apply_modifier)

lemma wf_collection_cong:
  assumes "map doc_id (docs c') = map doc_id (docs c)" and "next_id c' = next_id c"
  shows "wf_collection c' = wf_collection c"
proof -
  have a: "list_all (has_id_below n) ts =
           list_all (\<lambda>i. case i of None \<Rightarrow> False | Some k \<Rightarrow> k < n) (map doc_id ts)" for n ts
    by (induction ts) (simp_all add: has_id_below_def)
  show ?thesis
    unfolding wf_collection_def a assms by (rule refl)
qed

lemma wf_collection_update_docs:
  "wf_collection (update_docs sel m c) = wf_collection c"
  by (rule wf_collection_cong) (simp_all add: update_docs_def doc_id_update_first)

lemma wf_collection_remove_docs:
  assumes "wf_collection c"
  shows "wf_collection (remove_docs sel c)"
  using assms by (simp add: wf_collection_def remove_docs_def distinct_map_filter list_all_iff)

lemma wf_collection_retrieveTimepoints:
  assumes "wf_collection (timepoints api)"
    and "retrieveTimepoints cfg api p = Inr (api', l, r)"
  shows "wf_collection (timepoints api')"
proof -
  have "\<And>ts. wf_collection (fst (insert_each (timepoints api) ts))"
    using insert_each_fresh [OF assms(1)] by simp
  then have "\<And>ts c e. insert_each (timepoints api) ts = (c, e) \<Longrightarrow> wf_collection c"
    by (metis fst_conv)
  with assms show ?thesis
    by (auto simp: retrieveTimepoints_def Let_def
        split: option.splits promise.splits prod.splits)
qed

lemma wf_collection_preserved:
  assumes "wf_collection (timepoints api)"
  shows "storeTimepoints cfg api = Inr (api', l) \<Longrightarrow> wf_collection (timepoints api')"
    and "removeTimepoint cfg api i = Inr (api', l) \<Longrightarrow> wf_collection (timepoints api')"
    and "updateTimepoint cfg api i q = Inr (api', l) \<Longrightarrow> wf_collection (timepoints api')"
    and "wf_collection (timepoints (lock api))"
proof -
  show "storeTimepoints cfg api = Inr (api', l) \<Longrightarrow> wf_collection (timepoints api')"
    using assms
    by (auto simp: storeTimepoints_def Let_def split: option.splits promise.splits)
  show "removeTimepoint cfg api i = Inr (api', l) \<Longrightarrow> wf_collection (timepoints api')"
    using assms
    by (auto simp: removeTimepoint_def Let_def wf_collection_remove_docs
        split: option.splits promise.splits)
  show "updateTimepoint cfg api i q = Inr (api', l) \<Longrightarrow> wf_collection (timepoints api')"
    using assms
    by (auto simp: updateTimepoint_def Let_def wf_collection_update_docs
        split: option.splits promise.splits)
  show "wf_collection (timepoints (lock api))"
    using assms by (simp add: lock_def wf_collection_update_docs split: option.splits)
qed

lemma wf_collection_disassociateStudy:
  assumes "wf_collection (timepoints api)"
    and "disassociateStudy cfg api ids uid = Inr (api', l)"
  shows "wf_collection (timepoints api')"
proof -
  let ?api1 = "api\<lparr>timepoints := remove_docs (\<lambda>t. True) (timepoints api)\<rparr>"
  have w1: "wf_collection (timepoints ?api1)"
    using assms(1) by (simp add: wf_collection_remove_docs)
  have "\<And>a2 l2 r. retrieveTimepoints cfg ?api1 None = Inr (a2, l2, r) \<Longrightarrow>
          wf_collection (timepoints a2)"
    using wf_collection_retrieveTimepoints [OF w1] by blast
  with assms w1 show ?thesis
    by (auto simp: disassociateStudy_def Let_def
        split: option.splits promise.splits sum.splits prod.splits)
qed

subsection \<open>Decimal numerals\<close>

text \<open>\<open>decimal n\<close> is the numeral of \<open>n\<close>: read back digit by digit it gives \<open>n\<close>.\<close>

lemma digit_value_digit_char: "d < 10 \<Longrightarrow> digit_value (digit_char d) = d"
proof -
  assume "d < 10"
  then have "d \<in> {0, 1, 2, 3, 4, 5, 6, 7, 8, 9}"
    by auto
  then show ?thesis
    by (auto simp: digit_value_def digit_char_def)
qed

lemma decimal_value: "foldl (\<lambda>a c. 10 * a + digit_value c) 0 (decimal n) = n"
proof (induction n rule: decimal.induct)
  case (1 n)
  show ?case
  proof (cases "n < 10")
    case True
    then show ?thesis
      by (subst decimal.simps) (simp add: digit_value_digit_char)
  next
    case False
    with "1" show ?thesis
      by (subst decimal.simps) (simp add: digit_value_digit_char)
  qed
qed

end
